theory Spec2Isabelle
  imports Main "HOL-Library.Word"
begin

unbundle bit_operations_syntax

section \<open>Data model of fuseclient/main.go\<close>

text \<open>
  Go pointers to nodes are addresses into a heap of node objects. The heap is a list:
  an address is live iff it is below the length of the list, allocation appends, and
  nothing is ever freed (Go is garbage collected, so a pointer never dangles). Node
  identity is the address. A nil pointer is \<open>None\<close>.
\<close>

type_synonym addr = nat
type_synonym inode = "64 word"
type_synonym OpenFlags = "32 word"
type_synonym HandleID = "64 word"

text \<open>
  The errors returned to the kernel (\<open>fuse.Errno\<close> of the syscall constant, and
  \<open>fuse.ENOENT\<close>), and \<open>Panic\<close> for a Go run-time panic: a nil pointer dereference
  or a failed type assertion.
\<close>

datatype error = EIO | EPERM | ENOENT | EEXIST | ENOSPC | Panic

text \<open>\<open>type refcount struct { node node; kernel bool; refs uint32 }\<close>. The map of a
  directory holds \<open>*refcount\<close>; no such pointer is ever stored under two keys or in two
  maps (it is created at its insertion, and moved only by the same-directory rename, which
  deletes the old key), so the entry is kept by value in the map and a write through the
  pointer is a write to the map's entry.\<close>

record refcount =
  node :: addr
  kernel :: bool
  refs :: "32 word"

text \<open>\<open>type dir struct\<close>. The fields \<open>fs\<close> (the same \<open>*FS\<close> in every node) and
  \<open>mu\<close> (the mutex: operations are modelled as atomic, one at a time) are left out.\<close>

record dir =
  d_inode :: inode
  d_parent :: "addr option"
  d_name :: string
  d_active :: "string \<rightharpoonup> refcount"

text \<open>Modelled from the spec: the session type \<open>cfs.CFile\<close> of the backend package, which
  is not part of the sources. The client reads its fields \<open>Inode\<close>, \<open>ReaderMap\<close> (the
  read cursor of each kernel handle) and \<open>FileSize\<close> (an int64, only compared for
  equality here).\<close>

record ReaderInfo =
  LastOffset :: int

record CFile =
  Inode :: inode
  ReaderMap :: "HandleID \<rightharpoonup> ReaderInfo"
  FileSize :: int

text \<open>\<open>type File struct\<close>: \<open>writers\<close> is a Go \<open>uint\<close> (64 bits on the platforms the
  client is built for), \<open>handles\<close> a \<open>uint32\<close>. The session is owned by its file node
  and reached only through it, so it is kept by value.\<close>

record File =
  f_inode :: inode
  f_parent :: "addr option"
  f_name :: string
  f_writers :: "64 word"
  f_handles :: "32 word"
  f_cfile :: "CFile option"

text \<open>\<open>type node interface\<close>, implemented by \<open>*dir\<close> and \<open>*File\<close>.\<close>

datatype node = DirN dir | FileN File

subsection \<open>The backend client\<close>

text \<open>The calls the client makes to the backend, logged in the order they are made.\<close>

datatype bcall =
    CallStatDirect inode string
  | CallListDirect inode
  | CallCreateFileDirect inode string OpenFlags
  | CallCreateDirDirect inode string
  | CallDeleteDirDirect inode string
  | CallDeleteFileDirect inode string
  | CallRenameDirect inode string inode string
  | CallOpenFileDirect inode string OpenFlags
  | CallUpdateOpenFileDirect inode string OpenFlags
  | CallCloseConns
  | CallRead HandleID int int
  | CallWrite "8 word list"
  | CallFlush

text \<open>Modelled from the spec: the backend package \<open>cfs\<close>, an external service whose code
  is not part of the sources. Each call is a function of the calls made so far (the backend
  is stateful, and other clients change it) and of its arguments, to its result; a call on
  a session also gives the session as the backend leaves it. Result codes are only compared
  with constants, so they are \<open>int\<close>.\<close>

record cfs =
  StatDirect :: "bcall list \<Rightarrow> inode \<Rightarrow> string \<Rightarrow> int \<times> bool \<times> inode"
  ListDirect :: "bcall list \<Rightarrow> inode \<Rightarrow> int \<times> (string \<times> bool) list"
  CreateFileDirect :: "bcall list \<Rightarrow> inode \<Rightarrow> string \<Rightarrow> OpenFlags \<Rightarrow> int \<times> CFile option"
  CreateDirDirect :: "bcall list \<Rightarrow> inode \<Rightarrow> string \<Rightarrow> int \<times> inode"
  DeleteDirDirect :: "bcall list \<Rightarrow> inode \<Rightarrow> string \<Rightarrow> int"
  DeleteFileDirect :: "bcall list \<Rightarrow> inode \<Rightarrow> string \<Rightarrow> int"
  RenameDirect :: "bcall list \<Rightarrow> inode \<Rightarrow> string \<Rightarrow> inode \<Rightarrow> string \<Rightarrow> int"
  OpenFileDirect :: "bcall list \<Rightarrow> inode \<Rightarrow> string \<Rightarrow> OpenFlags \<Rightarrow> int \<times> CFile option"
  UpdateOpenFileDirect :: "bcall list \<Rightarrow> inode \<Rightarrow> string \<Rightarrow> CFile \<Rightarrow> OpenFlags \<Rightarrow> CFile"
  CloseConns :: "bcall list \<Rightarrow> CFile \<Rightarrow> CFile"
  cfRead :: "bcall list \<Rightarrow> CFile \<Rightarrow> HandleID \<Rightarrow> int \<Rightarrow> int \<Rightarrow> int \<times> 8 word list \<times> CFile"
  cfWrite :: "bcall list \<Rightarrow> CFile \<Rightarrow> 8 word list \<Rightarrow> int \<times> CFile"
  cfFlush :: "bcall list \<Rightarrow> CFile \<Rightarrow> CFile"

subsection \<open>The state: the heap of nodes and the log of backend calls\<close>

record state =
  heap :: "node list"
  calls :: "bcall list"

definition getDir :: "state \<Rightarrow> addr \<Rightarrow> dir option" where
  "getDir s a =
     (if a < length (heap s)
      then (case heap s ! a of DirN d \<Rightarrow> Some d | FileN _ \<Rightarrow> None)
      else None)"

definition getFile :: "state \<Rightarrow> addr \<Rightarrow> File option" where
  "getFile s a =
     (if a < length (heap s)
      then (case heap s ! a of DirN _ \<Rightarrow> None | FileN f \<Rightarrow> Some f)
      else None)"

text \<open>\<open>d.active[name]\<close>, read at the current state.\<close>

definition activeAt :: "state \<Rightarrow> addr \<Rightarrow> string \<Rightarrow> refcount option" where
  "activeAt s d name = (case getDir s d of None \<Rightarrow> None | Some dd \<Rightarrow> d_active dd name)"

text \<open>The name field of a node, whichever its type.\<close>

definition nameOf :: "state \<Rightarrow> addr \<Rightarrow> string option" where
  "nameOf s a =
     (if a < length (heap s)
      then (case heap s ! a of DirN d \<Rightarrow> Some (d_name d) | FileN f \<Rightarrow> Some (f_name f))
      else None)"

definition parentOf :: "state \<Rightarrow> addr \<Rightarrow> addr option" where
  "parentOf s a =
     (if a < length (heap s)
      then (case heap s ! a of DirN d \<Rightarrow> d_parent d | FileN f \<Rightarrow> f_parent f)
      else None)"

text \<open>\<open>&dir{...}\<close>, \<open>&File{...}\<close>: a new object at a fresh address.\<close>

definition alloc :: "state \<Rightarrow> node \<Rightarrow> addr \<times> state" where
  "alloc s n = (length (heap s), s\<lparr>heap := heap s @ [n]\<rparr>)"

definition call :: "state \<Rightarrow> bcall \<Rightarrow> state" where
  "call s c = s\<lparr>calls := calls s @ [c]\<rparr>"

text \<open>A write to fields of the object at an address: the object is read where it is
  written, so writes through aliases are seen.\<close>

definition updDir :: "state \<Rightarrow> addr \<Rightarrow> (dir \<Rightarrow> dir) \<Rightarrow> state" where
  "updDir s a g =
     (case getDir s a of None \<Rightarrow> s | Some d \<Rightarrow> s\<lparr>heap := (heap s)[a := DirN (g d)]\<rparr>)"

definition updFile :: "state \<Rightarrow> addr \<Rightarrow> (File \<Rightarrow> File) \<Rightarrow> state" where
  "updFile s a g =
     (case getFile s a of None \<Rightarrow> s | Some f \<Rightarrow> s\<lparr>heap := (heap s)[a := FileN (g f)]\<rparr>)"

text \<open>\<open>d.active[name] = a\<close> and \<open>delete(d.active, name)\<close>.\<close>

definition setActive :: "state \<Rightarrow> addr \<Rightarrow> string \<Rightarrow> refcount \<Rightarrow> state" where
  "setActive s d name a = updDir s d (\<lambda>x. x\<lparr>d_active := (d_active x)(name \<mapsto> a)\<rparr>)"

definition deleteActive :: "state \<Rightarrow> addr \<Rightarrow> string \<Rightarrow> state" where
  "deleteActive s d name = updDir s d (\<lambda>x. x\<lparr>d_active := (d_active x)(name := None)\<rparr>)"

section \<open>Directory nodes\<close>

text \<open>\<open>func newDir(filesys *FS, inode uint64, parent *dir, name string) *dir\<close>\<close>

definition newDir :: "state \<Rightarrow> inode \<Rightarrow> addr option \<Rightarrow> string \<Rightarrow> addr \<times> state" where
  "newDir s ino parent name =
     alloc s (DirN \<lparr>d_inode = ino, d_parent = parent, d_name = name, d_active = Map.empty\<rparr>)"

text \<open>\<open>func (fs *FS) Root()\<close>\<close>

definition Root :: "state \<Rightarrow> addr \<times> state" where
  "Root s = newDir s 0 None []"

text \<open>\<open>setName\<close> and \<open>setParentInode\<close> of the \<open>node\<close> interface, dispatched on the
  type of the object.\<close>

definition setName :: "state \<Rightarrow> addr \<Rightarrow> string \<Rightarrow> state" where
  "setName s a name =
     (if a < length (heap s)
      then (case heap s ! a of
              DirN _ \<Rightarrow> updDir s a (\<lambda>x. x\<lparr>d_name := name\<rparr>)
            | FileN _ \<Rightarrow> updFile s a (\<lambda>x. x\<lparr>f_name := name\<rparr>))
      else s)"

definition setParentInode :: "state \<Rightarrow> addr \<Rightarrow> addr option \<Rightarrow> state" where
  "setParentInode s a pdir =
     (if a < length (heap s)
      then (case heap s ! a of
              DirN _ \<Rightarrow> updDir s a (\<lambda>x. x\<lparr>d_parent := pdir\<rparr>)
            | FileN _ \<Rightarrow> updFile s a (\<lambda>x. x\<lparr>f_parent := pdir\<rparr>))
      else s)"

text \<open>\<open>func (d *dir) reviveDir\<close> and \<open>func (d *dir) reviveNode\<close>\<close>

definition reviveDir :: "state \<Rightarrow> addr \<Rightarrow> inode \<Rightarrow> string \<Rightarrow> addr \<times> state" where
  "reviveDir s d ino name = newDir s ino (Some d) name"

definition reviveNode :: "state \<Rightarrow> addr \<Rightarrow> bool \<Rightarrow> inode \<Rightarrow> string \<Rightarrow> addr \<times> state" where
  "reviveNode s d inodeType ino name =
     (if inodeType
      then alloc s (FileN \<lparr>f_inode = ino, f_parent = Some d, f_name = name,
                           f_writers = 0, f_handles = 0, f_cfile = None\<rparr>)
      else reviveDir s d ino name)"

text \<open>\<open>func (d *dir) Lookup\<close>: the receiver is a \<open>*dir\<close>; an address that holds no
  directory is not a call the Go types allow, and the model answers \<open>Panic\<close>.\<close>

definition Lookup :: "cfs \<Rightarrow> state \<Rightarrow> addr \<Rightarrow> string \<Rightarrow> (error + addr) \<times> state" where
  "Lookup c s d name =
     (case getDir s d of
        None \<Rightarrow> (Inl Panic, s)
      | Some dd \<Rightarrow>
          (case d_active dd name of
             Some a \<Rightarrow> (Inr (node a), s)
           | None \<Rightarrow>
               (let (ret, inodeType, ino) = StatDirect c (calls s) (d_inode dd) name;
                    s1 = call s (CallStatDirect (d_inode dd) name)
                in if ret = 2 then (Inl ENOENT, s1)
                   else if ret \<noteq> 0 then (Inl ENOENT, s1)
                   else
                     (let (n, s2) = reviveNode s1 d inodeType ino name;
                          a = \<lparr>node = n, kernel = False, refs = 0\<rparr>;
                          s3 = setActive s2 d name a;
                          s4 = setActive s3 d name (a\<lparr>kernel := True\<rparr>)
                      in (Inr n, s4)))))"

text \<open>\<open>func (d *dir) ReadDirAll\<close>: the listing of the backend, each entry with its name
  and whether it is a file (\<open>DT_File\<close>) or a directory (\<open>DT_Dir\<close>).\<close>

definition ReadDirAll :: "cfs \<Rightarrow> state \<Rightarrow> addr \<Rightarrow> (error + (string \<times> bool) list) \<times> state" where
  "ReadDirAll c s d =
     (case getDir s d of
        None \<Rightarrow> (Inl Panic, s)
      | Some dd \<Rightarrow>
          (let (ret, dirents) = ListDirect c (calls s) (d_inode dd);
               s1 = call s (CallListDirect (d_inode dd))
           in if ret = 2 then (Inl ENOENT, s1)
              else if ret \<noteq> 0 then (Inl EIO, s1)
              else (Inr (map (\<lambda>v. (fst v, snd v)) dirents), s1)))"

text \<open>\<open>func (d *dir) Create\<close>: returns the new file as node and as handle. \<open>cfile.Inode\<close>
  panics on a nil session.\<close>

definition Create :: "cfs \<Rightarrow> state \<Rightarrow> addr \<Rightarrow> string \<Rightarrow> OpenFlags \<Rightarrow> (error + addr) \<times> state" where
  "Create c s d name flags =
     (case getDir s d of
        None \<Rightarrow> (Inl Panic, s)
      | Some dd \<Rightarrow>
          (let (ret, cfile) = CreateFileDirect c (calls s) (d_inode dd) name flags;
               s1 = call s (CallCreateFileDirect (d_inode dd) name flags)
           in if ret \<noteq> 0
              then (if ret = 17 then (Inl EEXIST, s1) else (Inl EIO, s1))
              else
                (case cfile of
                   None \<Rightarrow> (Inl Panic, s1)
                 | Some cf \<Rightarrow>
                     (let (child, s2) =
                            alloc s1 (FileN \<lparr>f_inode = Inode cf, f_parent = Some d, f_name = name,
                                             f_writers = 1, f_handles = 1, f_cfile = Some cf\<rparr>);
                          s3 = setActive s2 d name \<lparr>node = child, kernel = False, refs = 0\<rparr>
                      in (Inr child, s3)))))"

text \<open>\<open>func (d *dir) forgetChild(name string, child node)\<close>\<close>

definition forgetChild :: "state \<Rightarrow> addr \<Rightarrow> string \<Rightarrow> addr \<Rightarrow> (error + unit) \<times> state" where
  "forgetChild s d name child =
     (if name = [] then (Inr (), s)
      else
        (case getDir s d of
           None \<Rightarrow> (Inl Panic, s)
         | Some dd \<Rightarrow>
             (case d_active dd name of
                None \<Rightarrow> (Inr (), s)
              | Some a \<Rightarrow>
                  (let s1 = setActive s d name (a\<lparr>kernel := False\<rparr>)
                   in if refs a = 0 then (Inr (), deleteActive s1 d name)
                      else (Inr (), s1)))))"

text \<open>\<open>func (d *dir) Forget()\<close>. Only \<open>*dir\<close> has a \<open>Forget\<close> method.\<close>

definition Forget :: "state \<Rightarrow> addr \<Rightarrow> (error + unit) \<times> state" where
  "Forget s d =
     (case getDir s d of
        None \<Rightarrow> (Inl Panic, s)
      | Some dd \<Rightarrow>
          (case d_parent dd of
             None \<Rightarrow> (Inr (), s)
           | Some p \<Rightarrow> forgetChild s p (d_name dd) d))"

text \<open>\<open>func (d *dir) Mkdir\<close>\<close>

definition Mkdir :: "cfs \<Rightarrow> state \<Rightarrow> addr \<Rightarrow> string \<Rightarrow> (error + addr) \<times> state" where
  "Mkdir c s d name =
     (case getDir s d of
        None \<Rightarrow> (Inl Panic, s)
      | Some dd \<Rightarrow>
          (let (ret, ino) = CreateDirDirect c (calls s) (d_inode dd) name;
               s1 = call s (CallCreateDirDirect (d_inode dd) name)
           in if ret = - 1 then (Inl EIO, s1)
              else if ret = 1 then (Inl EPERM, s1)
              else if ret = 2 then (Inl ENOENT, s1)
              else if ret = 17 then (Inl EEXIST, s1)
              else
                (let (child, s2) = newDir s1 ino (Some d) name;
                     s3 = setActive s2 d name \<lparr>node = child, kernel = True, refs = 0\<rparr>
                 in (Inr child, s3))))"

text \<open>\<open>func (d *dir) Remove\<close>, with \<open>req.Name\<close> and \<open>req.Dir\<close>\<close>

definition Remove :: "cfs \<Rightarrow> state \<Rightarrow> addr \<Rightarrow> string \<Rightarrow> bool \<Rightarrow> (error + unit) \<times> state" where
  "Remove c s d name isDir =
     (case getDir s d of
        None \<Rightarrow> (Inl Panic, s)
      | Some dd \<Rightarrow>
          (let ret = (if isDir then DeleteDirDirect c (calls s) (d_inode dd) name
                      else DeleteFileDirect c (calls s) (d_inode dd) name);
               s1 = call s (if isDir then CallDeleteDirDirect (d_inode dd) name
                            else CallDeleteFileDirect (d_inode dd) name)
           in if ret \<noteq> 0
              then (if ret = 2 then (Inl EPERM, s1) else (Inl EIO, s1))
              else
                (case activeAt s1 d name of
                   Some a \<Rightarrow>
                     (let s2 = deleteActive s1 d name;
                          s3 = setName s2 (node a) []
                      in (Inr (), s3))
                 | None \<Rightarrow> (Inr (), s1))))"

text \<open>The mapping of the result of \<open>RenameDirect\<close>, the same in both branches of
  \<open>Rename\<close>.\<close>

definition renameErr :: "int \<Rightarrow> error" where
  "renameErr ret = (if ret = 2 then ENOENT else if ret = 1 \<or> ret = 17 then EPERM else EIO)"

text \<open>\<open>func (d *dir) Rename\<close>, with \<open>req.OldName\<close>, \<open>newDir\<close> (here \<open>dst\<close>) and \<open>req.NewName\<close>. The
  type assertion \<open>newDir.(*dir)\<close> panics when the destination is not a directory.\<close>

definition Rename ::
  "cfs \<Rightarrow> state \<Rightarrow> addr \<Rightarrow> string \<Rightarrow> addr \<Rightarrow> string \<Rightarrow> (error + unit) \<times> state" where
  "Rename c s d oldName dst newName =
     (case getDir s d of
        None \<Rightarrow> (Inl Panic, s)
      | Some dd \<Rightarrow>
          (case getDir s dst of
             None \<Rightarrow> (Inl Panic, s)
           | Some nd \<Rightarrow>
               (let (ret, _, _) = StatDirect c (calls s) (d_inode nd) newName;
                    s1 = call s (CallStatDirect (d_inode nd) newName)
                in if ret = 0 then (Inl EPERM, s1)
                   else if dst \<noteq> d then
                     (let ret = RenameDirect c (calls s1) (d_inode dd) oldName (d_inode nd) newName;
                          s2 = call s1 (CallRenameDirect (d_inode dd) oldName (d_inode nd) newName)
                      in if ret \<noteq> 0 then (Inl (renameErr ret), s2)
                         else
                           (case activeAt s2 d oldName of
                              Some aOld \<Rightarrow>
                                (let s3 = deleteActive s2 d oldName;
                                     s4 = setName s3 (node aOld) newName;
                                     s5 = setParentInode s4 (node aOld) (Some dst)
                                 in (Inr (), s5))
                            | None \<Rightarrow> (Inr (), s2)))
                   else
                     (let ret = RenameDirect c (calls s1) (d_inode dd) oldName (d_inode dd) newName;
                          s2 = call s1 (CallRenameDirect (d_inode dd) oldName (d_inode dd) newName)
                      in if ret \<noteq> 0 then (Inl (renameErr ret), s2)
                         else
                           (let s3 = (case activeAt s2 d newName of
                                        Some a \<Rightarrow> setName s2 (node a) []
                                      | None \<Rightarrow> s2)
                            in (case activeAt s3 d oldName of
                                  Some aOld \<Rightarrow>
                                    (let s4 = setName s3 (node aOld) newName;
                                         s5 = deleteActive s4 d oldName;
                                         s6 = setActive s5 d newName aOld
                                     in (Inr (), s6))
                                | None \<Rightarrow> (Inr (), s3)))))))"

section \<open>File nodes and handles\<close>

text \<open>The flag constants of package \<open>os\<close> on Linux.\<close>

definition O_WRONLY :: OpenFlags where "O_WRONLY = 1"
definition O_RDWR :: OpenFlags where "O_RDWR = 2"
definition O_TRUNC :: OpenFlags where "O_TRUNC = 512"

text \<open>\<open>int(req.Flags)&os.O_WRONLY != 0 || int(req.Flags)&os.O_RDWR != 0\<close>, the test that
  \<open>Open\<close> and \<open>Release\<close> make for write intent.\<close>

definition writeIntent :: "OpenFlags \<Rightarrow> bool" where
  "writeIntent flags \<longleftrightarrow> flags AND O_WRONLY \<noteq> 0 \<or> flags AND O_RDWR \<noteq> 0"

text \<open>\<open>func (f *File) Open\<close>. The log line reads \<open>f.parent.name\<close> first, which panics on a
  nil parent. \<open>ret, f.cfile = OpenFileDirect(...)\<close> stores the session before \<open>ret\<close> is
  tested. A method called on a nil session is taken to panic, except
  \<open>UpdateOpenFileDirect\<close>, which gets the session as an argument and is taken to leave a
  nil one alone.\<close>

definition Open :: "cfs \<Rightarrow> state \<Rightarrow> addr \<Rightarrow> OpenFlags \<Rightarrow> (error + addr) \<times> state" where
  "Open c s f flags =
     (case getFile s f of
        None \<Rightarrow> (Inl Panic, s)
      | Some fl \<Rightarrow>
          (case f_parent fl of
             None \<Rightarrow> (Inl Panic, s)
           | Some p \<Rightarrow>
               (case getDir s p of
                  None \<Rightarrow> (Inl Panic, s)
                | Some pd \<Rightarrow>
                    if flags AND O_TRUNC \<noteq> 0 then (Inl EPERM, s)
                    else if f_writers fl > 0 \<and> writeIntent flags then (Inl EPERM, s)
                    else
                      (let (ret, s1) =
                             (if f_cfile fl = None \<and> f_handles fl = 0
                              then
                                (let (r, cf) = OpenFileDirect c (calls s) (d_inode pd) (f_name fl) flags;
                                     s0 = call s (CallOpenFileDirect (d_inode pd) (f_name fl) flags)
                                 in (r, updFile s0 f (\<lambda>x. x\<lparr>f_cfile := cf\<rparr>)))
                              else
                                (let s0 = call s (CallUpdateOpenFileDirect (d_inode pd) (f_name fl) flags)
                                 in (0, updFile s0 f (\<lambda>x. x\<lparr>f_cfile :=
                                        map_option (\<lambda>cf. UpdateOpenFileDirect c (calls s)
                                                      (d_inode pd) (f_name fl) cf flags) (f_cfile x)\<rparr>))))
                       in if ret \<noteq> 0 then (Inl EIO, s1)
                          else
                            (let s2 = updFile s1 f (\<lambda>x. x\<lparr>f_handles := f_handles x + 1\<rparr>);
                                 s3 = (if writeIntent flags
                                       then updFile s2 f (\<lambda>x. x\<lparr>f_writers := f_writers x + 1\<rparr>)
                                       else s2)
                             in (Inr f, s3))))))"

text \<open>\<open>func (f *File) Release\<close>\<close>

definition Release :: "cfs \<Rightarrow> state \<Rightarrow> addr \<Rightarrow> OpenFlags \<Rightarrow> (error + unit) \<times> state" where
  "Release c s f flags =
     (case getFile s f of
        None \<Rightarrow> (Inl Panic, s)
      | Some fl \<Rightarrow>
          (let s1 = updFile s f (\<lambda>x. x\<lparr>f_handles := f_handles x - 1\<rparr>)
           in case (if writeIntent flags
                    then (case f_cfile fl of
                            None \<Rightarrow> None
                          | Some cf \<Rightarrow>
                              (let s2 = updFile (call s1 CallCloseConns) f
                                          (\<lambda>x. x\<lparr>f_cfile := Some (CloseConns c (calls s1) cf)\<rparr>)
                               in Some (updFile s2 f (\<lambda>x. x\<lparr>f_writers := f_writers x - 1\<rparr>))))
                    else Some s1) of
                None \<Rightarrow> (Inl Panic, s1)
              | Some s3 \<Rightarrow>
                  (case getFile s3 f of
                     None \<Rightarrow> (Inl Panic, s3)
                   | Some fl3 \<Rightarrow>
                       if f_handles fl3 = 0
                       then (Inr (), updFile s3 f (\<lambda>x. x\<lparr>f_cfile := None\<rparr>))
                       else (Inr (), s3))))"

text \<open>\<open>func (f *File) Read\<close>, with \<open>req.Handle\<close>, \<open>req.Offset\<close> and \<open>req.Size\<close> (\<open>sz\<close>); the result
  is \<open>resp.Data\<close>, which the transport hands over empty and only the session's \<open>Read\<close>
  fills. \<open>f.cfile.ReaderMap\<close> panics on a nil session.\<close>

definition Read ::
  "cfs \<Rightarrow> state \<Rightarrow> addr \<Rightarrow> HandleID \<Rightarrow> int \<Rightarrow> int \<Rightarrow> (error + 8 word list) \<times> state" where
  "Read c s f handle offset sz =
     (case getFile s f of
        None \<Rightarrow> (Inl Panic, s)
      | Some fl \<Rightarrow>
          (case f_cfile fl of
             None \<Rightarrow> (Inl Panic, s)
           | Some cf \<Rightarrow>
               (let cf1 = (if ReaderMap cf handle = None
                           then cf\<lparr>ReaderMap := (ReaderMap cf)(handle \<mapsto> \<lparr>LastOffset = 0\<rparr>)\<rparr>
                           else cf);
                    s1 = updFile s f (\<lambda>x. x\<lparr>f_cfile := Some cf1\<rparr>)
                in if offset = FileSize cf1 then (Inr [], s1)
                   else
                     (let (len, data, cf2) = cfRead c (calls s1) cf1 handle offset sz;
                          s2 = updFile (call s1 (CallRead handle offset sz)) f
                                 (\<lambda>x. x\<lparr>f_cfile := Some cf2\<rparr>)
                      in if len < 0 then (Inl EIO, s2) else (Inr data, s2)))))"

text \<open>\<open>func (f *File) Write\<close>; the result is \<open>resp.Size\<close>. \<open>int32(len(req.Data))\<close>
  truncates the length to 32 bits, signed.\<close>

definition Write :: "cfs \<Rightarrow> state \<Rightarrow> addr \<Rightarrow> 8 word list \<Rightarrow> (error + int) \<times> state" where
  "Write c s f data =
     (case getFile s f of
        None \<Rightarrow> (Inl Panic, s)
      | Some fl \<Rightarrow>
          (case f_cfile fl of
             None \<Rightarrow> (Inl Panic, s)
           | Some cf \<Rightarrow>
               (let (w, cf1) = cfWrite c (calls s) cf data;
                    s1 = updFile (call s (CallWrite data)) f (\<lambda>x. x\<lparr>f_cfile := Some cf1\<rparr>)
                in if w \<noteq> signed_take_bit 31 (int (length data))
                   then (if w = - 1 then (Inl ENOSPC, s1) else (Inl EIO, s1))
                   else (Inr w, s1))))"

text \<open>\<open>func (f *File) Flush\<close> and \<open>func (f *File) Fsync\<close>\<close>

definition Flush :: "cfs \<Rightarrow> state \<Rightarrow> addr \<Rightarrow> (error + unit) \<times> state" where
  "Flush c s f =
     (case getFile s f of
        None \<Rightarrow> (Inl Panic, s)
      | Some fl \<Rightarrow>
          (case f_cfile fl of
             None \<Rightarrow> (Inl Panic, s)
           | Some cf \<Rightarrow>
               (Inr (), updFile (call s CallFlush) f
                          (\<lambda>x. x\<lparr>f_cfile := Some (cfFlush c (calls s) cf)\<rparr>))))"

definition Fsync :: "cfs \<Rightarrow> state \<Rightarrow> addr \<Rightarrow> (error + unit) \<times> state" where
  "Fsync c s f = Flush c s f"

section \<open>Sequences of operations\<close>

text \<open>The requests of the kernel that reach the node cache or a session. (\<open>Attr\<close>,
  \<open>Setattr\<close> and \<open>Statfs\<close> write to no node and to no session.)\<close>

datatype op =
    OpLookup addr string
  | OpReadDirAll addr
  | OpCreate addr string OpenFlags
  | OpForget addr
  | OpMkdir addr string
  | OpRemove addr string bool
  | OpRename addr string addr string
  | OpOpen addr OpenFlags
  | OpRelease addr OpenFlags
  | OpRead addr HandleID int int
  | OpWrite addr "8 word list"
  | OpFlush addr
  | OpFsync addr

fun step :: "cfs \<Rightarrow> state \<Rightarrow> op \<Rightarrow> state" where
  "step c s (OpLookup d name) = snd (Lookup c s d name)"
| "step c s (OpReadDirAll d) = snd (ReadDirAll c s d)"
| "step c s (OpCreate d name flags) = snd (Create c s d name flags)"
| "step c s (OpForget d) = snd (Forget s d)"
| "step c s (OpMkdir d name) = snd (Mkdir c s d name)"
| "step c s (OpRemove d name isDir) = snd (Remove c s d name isDir)"
| "step c s (OpRename d oldName dst newName) = snd (Rename c s d oldName dst newName)"
| "step c s (OpOpen f flags) = snd (Open c s f flags)"
| "step c s (OpRelease f flags) = snd (Release c s f flags)"
| "step c s (OpRead f handle offset sz) = snd (Read c s f handle offset sz)"
| "step c s (OpWrite f data) = snd (Write c s f data)"
| "step c s (OpFlush f) = snd (Flush c s f)"
| "step c s (OpFsync f) = snd (Fsync c s f)"

fun run :: "cfs \<Rightarrow> state \<Rightarrow> op list \<Rightarrow> state" where
  "run c s [] = s"
| "run c s (x # xs) = run c (step c s x) xs"

text \<open>Whether a request is answered without an error.\<close>

definition isOk :: "(error + 'a) \<times> state \<Rightarrow> bool" where
  "isOk r = (case fst r of Inl _ \<Rightarrow> False | Inr _ \<Rightarrow> True)"

fun succeeds :: "cfs \<Rightarrow> state \<Rightarrow> op \<Rightarrow> bool" where
  "succeeds c s (OpLookup d name) = isOk (Lookup c s d name)"
| "succeeds c s (OpReadDirAll d) = isOk (ReadDirAll c s d)"
| "succeeds c s (OpCreate d name flags) = isOk (Create c s d name flags)"
| "succeeds c s (OpForget d) = isOk (Forget s d)"
| "succeeds c s (OpMkdir d name) = isOk (Mkdir c s d name)"
| "succeeds c s (OpRemove d name isDir) = isOk (Remove c s d name isDir)"
| "succeeds c s (OpRename d oldName dst newName) = isOk (Rename c s d oldName dst newName)"
| "succeeds c s (OpOpen f flags) = isOk (Open c s f flags)"
| "succeeds c s (OpRelease f flags) = isOk (Release c s f flags)"
| "succeeds c s (OpRead f handle offset sz) = isOk (Read c s f handle offset sz)"
| "succeeds c s (OpWrite f data) = isOk (Write c s f data)"
| "succeeds c s (OpFlush f) = isOk (Flush c s f)"
| "succeeds c s (OpFsync f) = isOk (Fsync c s f)"

text \<open>The requests that leave the entry of name \<open>n\<close> in directory \<open>d\<close> alone: no remove,
  no rename, no forget, and no create or mkdir of \<open>n\<close> in \<open>d\<close>.\<close>

fun quiet :: "addr \<Rightarrow> string \<Rightarrow> op \<Rightarrow> bool" where
  "quiet d n (OpRemove _ _ _) = False"
| "quiet d n (OpRename _ _ _ _) = False"
| "quiet d n (OpForget _) = False"
| "quiet d n (OpCreate d' n' _) = (d' \<noteq> d \<or> n' \<noteq> n)"
| "quiet d n (OpMkdir d' n') = (d' \<noteq> d \<or> n' \<noteq> n)"
| "quiet d n _ = True"

text \<open>The opens and the releases of file \<open>f\<close> in a sequence of requests.\<close>

fun isOpenOf :: "addr \<Rightarrow> op \<Rightarrow> bool" where
  "isOpenOf f (OpOpen g _) = (g = f)"
| "isOpenOf f _ = False"

fun isReleaseOf :: "addr \<Rightarrow> op \<Rightarrow> bool" where
  "isReleaseOf f (OpRelease g _) = (g = f)"
| "isReleaseOf f _ = False"

definition opens :: "addr \<Rightarrow> op list \<Rightarrow> nat" where
  "opens f xs = length (filter (isOpenOf f) xs)"

definition releases :: "addr \<Rightarrow> op list \<Rightarrow> nat" where
  "releases f xs = length (filter (isReleaseOf f) xs)"

text \<open>A run in which every open and every release of \<open>f\<close> succeeds; \<open>None\<close> when one of
  them fails.\<close>

fun okRun :: "cfs \<Rightarrow> addr \<Rightarrow> state \<Rightarrow> op list \<Rightarrow> state option" where
  "okRun c f s [] = Some s"
| "okRun c f s (x # xs) =
     (if (isOpenOf f x \<or> isReleaseOf f x) \<and> \<not> succeeds c s x then None
      else okRun c f (step c s x) xs)"

text \<open>With \<open>n\<close> handles of \<open>f\<close> open at the start, the sequence never releases a handle
  when none is open, and never has \<open>2 ^ 32\<close> handles of \<open>f\<close> open at a time.\<close>

fun within :: "addr \<Rightarrow> nat \<Rightarrow> op list \<Rightarrow> bool" where
  "within f n [] = True"
| "within f n (x # xs) =
     (if isOpenOf f x then Suc n < 2 ^ 32 \<and> within f (Suc n) xs
      else if isReleaseOf f x then 0 < n \<and> within f (n - 1) xs
      else within f n xs)"

text \<open>The same without the upper bound: releases never outnumber opens.\<close>

fun balanced :: "addr \<Rightarrow> nat \<Rightarrow> op list \<Rightarrow> bool" where
  "balanced f n [] = True"
| "balanced f n (x # xs) =
     (if isOpenOf f x then balanced f (Suc n) xs
      else if isReleaseOf f x then 0 < n \<and> balanced f (n - 1) xs
      else balanced f n xs)"

text \<open>A run as the kernel drives it, with the table \<open>hs\<close> of the open handles of \<open>f\<close>,
  each with the flags it was opened with: a successful open adds a handle, a release is
  sent for an open handle, with the flags of that handle, and removes it. \<open>None\<close> when a
  release is sent for no open handle.\<close>

fun kernelRun ::
  "cfs \<Rightarrow> addr \<Rightarrow> state \<times> OpenFlags list \<Rightarrow> op list \<Rightarrow> (state \<times> OpenFlags list) option" where
  "kernelRun c f (s, hs) [] = Some (s, hs)"
| "kernelRun c f (s, hs) (OpOpen g flags # xs) =
     kernelRun c f (step c s (OpOpen g flags),
                    if g = f \<and> succeeds c s (OpOpen g flags) then flags # hs else hs) xs"
| "kernelRun c f (s, hs) (OpRelease g flags # xs) =
     (if g = f
      then (if flags \<in> set hs
            then kernelRun c f (step c s (OpRelease g flags), remove1 flags hs) xs
            else None)
      else kernelRun c f (step c s (OpRelease g flags), hs) xs)"
| "kernelRun c f (s, hs) (x # xs) = kernelRun c f (step c s x, hs) xs"

text \<open>The handle count of a file and whether it has a session.\<close>

definition handleCount :: "state \<Rightarrow> addr \<Rightarrow> nat option" where
  "handleCount s f = map_option (\<lambda>x. unat (f_handles x)) (getFile s f)"

definition writerCount :: "state \<Rightarrow> addr \<Rightarrow> nat option" where
  "writerCount s f = map_option (\<lambda>x. unat (f_writers x)) (getFile s f)"

definition hasSession :: "state \<Rightarrow> addr \<Rightarrow> bool option" where
  "hasSession s f = map_option (\<lambda>x. f_cfile x \<noteq> None) (getFile s f)"

text \<open>A backend that hands out a session whenever it reports that an open succeeded.\<close>

definition sessionOnSuccess :: "cfs \<Rightarrow> bool" where
  "sessionOnSuccess c \<longleftrightarrow>
     (\<forall>h i nm fl. fst (OpenFileDirect c h i nm fl) = 0 \<longrightarrow> snd (OpenFileDirect c h i nm fl) \<noteq> None)"

text \<open>The handle count and the session of \<open>f\<close> after a run in which every open and
  release of \<open>f\<close> succeeded.\<close>

definition countsAfter :: "cfs \<Rightarrow> addr \<Rightarrow> state \<Rightarrow> op list \<Rightarrow> (nat option \<times> bool option) option" where
  "countsAfter c f s xs =
     (case okRun c f s xs of None \<Rightarrow> None | Some s' \<Rightarrow> Some (handleCount s' f, hasSession s' f))"

text \<open>The writer count of \<open>f\<close> and the table of its open handles after a run driven by
  the kernel.\<close>

definition writersAfter ::
  "cfs \<Rightarrow> addr \<Rightarrow> state \<Rightarrow> OpenFlags list \<Rightarrow> op list \<Rightarrow> (nat option \<times> OpenFlags list) option" where
  "writersAfter c f s hs xs =
     (case kernelRun c f (s, hs) xs of
        None \<Rightarrow> None
      | Some (s', hs') \<Rightarrow> Some (writerCount s' f, hs'))"

text \<open>Node \<open>x\<close> is a live object that no entry of directory \<open>d\<close> holds.\<close>

definition keptOut :: "state \<Rightarrow> addr \<Rightarrow> addr \<Rightarrow> bool" where
  "keptOut s d x \<longleftrightarrow> x < length (heap s) \<and> (\<forall>k e. activeAt s d k = Some e \<longrightarrow> node e \<noteq> x)"

section \<open>Concrete scenarios\<close>

text \<open>The empty client, and the client after \<open>Root()\<close>: the root directory at address 0.\<close>

definition emptyState :: state where
  "emptyState = \<lparr>heap = [], calls = []\<rparr>"

definition rootState :: state where
  "rootState = snd (Root emptyState)"

text \<open>A backend on which every call succeeds: every name exists and is a file of inode 7,
  a new directory gets inode 9, and a session is left as it is.\<close>

definition session0 :: CFile where
  "session0 = \<lparr>Inode = 7, ReaderMap = Map.empty, FileSize = 0\<rparr>"

definition okCfs :: cfs where
  "okCfs = \<lparr>
     StatDirect = (\<lambda>h i nm. (0, True, 7)),
     ListDirect = (\<lambda>h i. (0, [])),
     CreateFileDirect = (\<lambda>h i nm fl. (0, Some session0)),
     CreateDirDirect = (\<lambda>h i nm. (0, 9)),
     DeleteDirDirect = (\<lambda>h i nm. 0),
     DeleteFileDirect = (\<lambda>h i nm. 0),
     RenameDirect = (\<lambda>h i nm j nm'. 0),
     OpenFileDirect = (\<lambda>h i nm fl. (0, Some session0)),
     UpdateOpenFileDirect = (\<lambda>h i nm cf fl. cf),
     CloseConns = (\<lambda>h cf. cf),
     cfRead = (\<lambda>h cf hd off sz. (0, [], cf)),
     cfWrite = (\<lambda>h cf data. (int (length data), cf)),
     cfFlush = (\<lambda>h cf. cf)\<rparr>"

text \<open>The same backend, on which no name exists yet.\<close>

definition newCfs :: cfs where
  "newCfs = okCfs\<lparr>StatDirect := (\<lambda>h i nm. (2, False, 0))\<rparr>"

text \<open>The same backend, whose \<open>CreateDirDirect\<close> answers with code 3.\<close>

definition code3Cfs :: cfs where
  "code3Cfs = okCfs\<lparr>CreateDirDirect := (\<lambda>h i nm. (3, 0))\<rparr>"

text \<open>The root with the file \<open>a\<close> looked up; then also \<open>b\<close>; and the root with the
  directory \<open>a\<close> made.\<close>

definition stateA :: state where
  "stateA = snd (Lookup okCfs rootState 0 ''a'')"

definition stateAB :: state where
  "stateAB = snd (Lookup okCfs stateA 0 ''b'')"

definition stateDirA :: state where
  "stateDirA = snd (Mkdir okCfs rootState 0 ''a'')"

text \<open>The root with the file \<open>a\<close> created with flags \<open>O_WRONLY\<close>: the file is at
  address 1, open, with the session of the create.\<close>

definition stateCreated :: state where
  "stateCreated = snd (Create okCfs rootState 0 ''a'' 1)"

text \<open>A root whose entry for the directory \<open>a\<close> has a pending-reference counter of 2.
  (No function of the client writes the counter; the state is built by hand.)\<close>

definition statePinned :: state where
  "statePinned =
     \<lparr>heap = [DirN \<lparr>d_inode = 0, d_parent = None, d_name = [],
                     d_active = [''a'' \<mapsto> \<lparr>node = 1, kernel = True, refs = 2\<rparr>]\<rparr>,
              DirN \<lparr>d_inode = 9, d_parent = Some 0, d_name = ''a'', d_active = Map.empty\<rparr>],
      calls = []\<rparr>"

text \<open>The root with the file \<open>a\<close> looked up and the directory \<open>sub\<close> made.\<close>

definition stateSub :: state where
  "stateSub = snd (Mkdir okCfs stateA 0 ''sub'')"

text \<open>The root after \<open>a\<close> was looked up and then removed.\<close>

definition stateRemoved :: state where
  "stateRemoved = snd (Remove okCfs stateA 0 ''a'' False)"

section \<open>Reading the heap after a write\<close>

lemma getDir_call [simp]: "getDir (call s c) a = getDir s a"
  by (simp add: getDir_def call_def)

lemma getFile_call [simp]: "getFile (call s c) a = getFile s a"
  by (simp add: getFile_def call_def)

lemma getDir_updDir [simp]:
  "getDir (updDir s a g) b = (if a = b then map_option g (getDir s b) else getDir s b)"
  by (cases "a = b") (auto simp: getDir_def updDir_def split: node.splits option.splits)

lemma getDir_updFile [simp]: "getDir (updFile s a g) b = getDir s b"
  by (cases "a = b") (auto simp: getDir_def getFile_def updFile_def nth_list_update split: node.splits option.splits if_splits)

lemma getFile_updFile [simp]:
  "getFile (updFile s a g) b = (if a = b then map_option g (getFile s b) else getFile s b)"
  by (cases "a = b") (auto simp: getFile_def updFile_def split: node.splits option.splits)

lemma getFile_updDir [simp]: "getFile (updDir s a g) b = getFile s b"
  by (cases "a = b") (auto simp: getDir_def getFile_def updDir_def nth_list_update split: node.splits option.splits if_splits)

lemma getDir_alloc [simp]:
  "getDir (snd (alloc s n)) a =
     (if a = length (heap s) then (case n of DirN d \<Rightarrow> Some d | FileN _ \<Rightarrow> None) else getDir s a)"
  by (auto simp: getDir_def alloc_def nth_append split: node.splits)

lemma getFile_alloc [simp]:
  "getFile (snd (alloc s n)) a =
     (if a = length (heap s) then (case n of DirN _ \<Rightarrow> None | FileN f \<Rightarrow> Some f) else getFile s a)"
  by (auto simp: getFile_def alloc_def nth_append split: node.splits)

lemma fst_alloc [simp]: "fst (alloc s n) = length (heap s)"
  by (simp add: alloc_def)

lemma len_call [simp]: "length (heap (call s c)) = length (heap s)"
  by (simp add: call_def)

lemma len_updDir [simp]: "length (heap (updDir s a g)) = length (heap s)"
  by (simp add: updDir_def split: option.splits)

lemma len_updFile [simp]: "length (heap (updFile s a g)) = length (heap s)"
  by (simp add: updFile_def split: option.splits)

lemma len_alloc [simp]: "length (heap (snd (alloc s n))) = Suc (length (heap s))"
  by (simp add: alloc_def)

lemma calls_updDir [simp]: "calls (updDir s a g) = calls s"
  by (simp add: updDir_def split: option.splits)

lemma calls_updFile [simp]: "calls (updFile s a g) = calls s"
  by (simp add: updFile_def split: option.splits)

lemma getDir_live: "getDir s a = Some d \<Longrightarrow> a < length (heap s)"
  by (simp add: getDir_def split: if_splits)

lemma getFile_live: "getFile s a = Some d \<Longrightarrow> a < length (heap s)"
  by (simp add: getFile_def split: if_splits)

lemma getDir_setName [simp]:
  "getDir (setName s a nm) b =
     (if a = b then map_option (\<lambda>x. x\<lparr>d_name := nm\<rparr>) (getDir s b) else getDir s b)"
  by (cases "a = b") (auto simp: setName_def getDir_def updDir_def updFile_def getFile_def split: node.splits)

lemma getFile_setName [simp]:
  "getFile (setName s a nm) b =
     (if a = b then map_option (\<lambda>x. x\<lparr>f_name := nm\<rparr>) (getFile s b) else getFile s b)"
  by (cases "a = b") (auto simp: setName_def getDir_def updDir_def updFile_def getFile_def split: node.splits)

lemma getDir_setParentInode [simp]:
  "getDir (setParentInode s a p) b =
     (if a = b then map_option (\<lambda>x. x\<lparr>d_parent := p\<rparr>) (getDir s b) else getDir s b)"
  by (cases "a = b") (auto simp: setParentInode_def getDir_def updDir_def updFile_def getFile_def split: node.splits)

lemma getFile_setParentInode [simp]:
  "getFile (setParentInode s a p) b =
     (if a = b then map_option (\<lambda>x. x\<lparr>f_parent := p\<rparr>) (getFile s b) else getFile s b)"
  by (cases "a = b") (auto simp: setParentInode_def getDir_def updDir_def updFile_def getFile_def split: node.splits)

lemma len_setName [simp]: "length (heap (setName s a nm)) = length (heap s)"
  by (simp add: setName_def split: node.splits)

lemma len_setParentInode [simp]: "length (heap (setParentInode s a p)) = length (heap s)"
  by (simp add: setParentInode_def split: node.splits)

lemma calls_setName [simp]: "calls (setName s a nm) = calls s"
  by (simp add: setName_def split: node.splits)

lemma calls_setParentInode [simp]: "calls (setParentInode s a p) = calls s"
  by (simp add: setParentInode_def split: node.splits)


lemma activeAt_call [simp]: "activeAt (call s c) d n = activeAt s d n"
  by (simp add: activeAt_def)

lemma activeAt_updFile [simp]: "activeAt (updFile s a g) d n = activeAt s d n"
  by (simp add: activeAt_def)

lemma activeAt_setActive [simp]:
  "activeAt (setActive s a k e) d n =
     (if a = d \<and> k = n \<and> getDir s d \<noteq> None then Some e else activeAt s d n)"
  by (auto simp: activeAt_def setActive_def split: option.splits)

lemma activeAt_deleteActive [simp]:
  "activeAt (deleteActive s a k) d n = (if a = d \<and> k = n then None else activeAt s d n)"
  by (auto simp: activeAt_def deleteActive_def split: option.splits)

lemma activeAt_setName [simp]: "activeAt (setName s a nm) d n = activeAt s d n"
  by (auto simp: activeAt_def split: option.splits)

lemma activeAt_setParentInode [simp]: "activeAt (setParentInode s a p) d n = activeAt s d n"
  by (auto simp: activeAt_def split: option.splits)

lemma activeAt_alloc [simp]:
  "activeAt s d n = Some e \<Longrightarrow> activeAt (snd (alloc s x)) d n = Some e"
  by (auto simp: activeAt_def dest: getDir_live split: option.splits)

lemma activeAt_live: "activeAt s d n = Some e \<Longrightarrow> d < length (heap s)"
  by (auto simp: activeAt_def dest: getDir_live split: option.splits)

lemma getDir_setActive [simp]:
  "getDir (setActive s a k e) b =
     (if a = b then map_option (\<lambda>x. x\<lparr>d_active := (d_active x)(k \<mapsto> e)\<rparr>) (getDir s b) else getDir s b)"
  by (simp add: setActive_def)

lemma getDir_deleteActive [simp]:
  "getDir (deleteActive s a k) b =
     (if a = b then map_option (\<lambda>x. x\<lparr>d_active := (d_active x)(k := None)\<rparr>) (getDir s b) else getDir s b)"
  by (simp add: deleteActive_def)

lemma getFile_setActive [simp]: "getFile (setActive s a k e) b = getFile s b"
  by (simp add: setActive_def)

lemma getFile_deleteActive [simp]: "getFile (deleteActive s a k) b = getFile s b"
  by (simp add: deleteActive_def)

lemma len_setActive [simp]: "length (heap (setActive s a k e)) = length (heap s)"
  by (simp add: setActive_def)

lemma len_deleteActive [simp]: "length (heap (deleteActive s a k)) = length (heap s)"
  by (simp add: deleteActive_def)

lemma calls_setActive [simp]: "calls (setActive s a k e) = calls s"
  by (simp add: setActive_def)

lemma calls_deleteActive [simp]: "calls (deleteActive s a k) = calls s"
  by (simp add: deleteActive_def)

lemmas ops_defs = Lookup_def Create_def Mkdir_def Remove_def Rename_def Forget_def forgetChild_def
  Open_def Release_def Read_def Write_def Flush_def Fsync_def ReadDirAll_def
  reviveNode_def reviveDir_def newDir_def Root_def alloc_def call_def updDir_def updFile_def
  setActive_def deleteActive_def setName_def setParentInode_def getDir_def getFile_def
  activeAt_def nameOf_def parentOf_def

lemmas scen_defs = emptyState_def rootState_def session0_def okCfs_def newCfs_def code3Cfs_def
  stateA_def stateAB_def stateDirA_def stateCreated_def statePinned_def stateSub_def
  stateRemoved_def

section \<open>Lookup returns the resident node\<close>

lemma activeAt_SomeD: "activeAt s d n = Some e \<Longrightarrow> \<exists>y. getDir s d = Some y \<and> d_active y n = Some e"
  by (auto simp: activeAt_def split: option.splits)

lemma step_quiet:
  assumes "activeAt s d n = Some e" and "quiet d n x"
  shows "activeAt (step c s x) d n = Some e"
proof -
  from assms(1) obtain y where y: "getDir s d = Some y" "d_active y n = Some e"
    by (auto dest: activeAt_SomeD)
  have live: "d \<noteq> length (heap s)"
    using y(1) by (auto dest: getDir_live)
  show ?thesis
  proof (cases x)
    case (OpLookup d' n')
    then show ?thesis using assms(1) y live
      by (auto simp: Lookup_def reviveNode_def reviveDir_def newDir_def Let_def split_beta
               split: option.splits)
  qed (use assms y live in \<open>auto simp: ReadDirAll_def Create_def Mkdir_def newDir_def Open_def Release_def Read_def
          Write_def Flush_def Fsync_def Let_def split_beta split: option.splits\<close>)
qed

lemma run_quiet:
  "activeAt s d n = Some e \<Longrightarrow> \<forall>x\<in>set xs. quiet d n x \<Longrightarrow> activeAt (run c s xs) d n = Some e"
  by (induction xs arbitrary: s) (auto simp: step_quiet)

lemma Lookup_resident:
  "activeAt s d n = Some a \<Longrightarrow> Lookup c s d n = (Inr (node a), s)"
  by (auto simp: Lookup_def activeAt_def split: option.splits)

lemma Lookup_installs:
  "Lookup c s d n = (Inr x, s1) \<Longrightarrow> \<exists>a. activeAt s1 d n = Some a \<and> node a = x"
  by (auto simp: Lookup_def activeAt_def reviveNode_def reviveDir_def newDir_def Let_def split_beta
           dest: getDir_live split: option.splits if_splits)

text \<open>
  C1 (amended). For a name that is resident in the children map of a directory, \<open>Lookup\<close>
  returns the node stored in that entry and leaves the state as it is, the log of backend
  calls included: no backend call is made. And when a \<open>Lookup\<close> of \<open>n\<close> in \<open>d\<close> has
  returned a node, a later \<open>Lookup\<close> of \<open>n\<close> in \<open>d\<close> returns the same node, whatever
  requests come in between, as long as none of them is a remove, a rename, a forget, or a
  create or mkdir of \<open>n\<close> in \<open>d\<close>.
\<close>

theorem Lookup_identity_stable:
  "(activeAt s d n = Some a \<longrightarrow> Lookup c s d n = (Inr (node a), s)) \<and>
   (fst (Lookup c s d n) = Inr x \<and> (\<forall>op\<in>set ops. quiet d n op) \<longrightarrow>
      Lookup c (run c (snd (Lookup c s d n)) ops) d n = (Inr x, run c (snd (Lookup c s d n)) ops))"
proof (intro conjI impI)
  assume "activeAt s d n = Some a"
  then show "Lookup c s d n = (Inr (node a), s)" by (rule Lookup_resident)
next
  assume h: "fst (Lookup c s d n) = Inr x \<and> (\<forall>op\<in>set ops. quiet d n op)"
  then have "Lookup c s d n = (Inr x, snd (Lookup c s d n))"
    by (simp add: prod_eq_iff)
  then obtain a where a: "activeAt (snd (Lookup c s d n)) d n = Some a" "node a = x"
    by (auto dest: Lookup_installs)
  from a(1) h have "activeAt (run c (snd (Lookup c s d n)) ops) d n = Some a"
    by (simp add: run_quiet)
  then show "Lookup c (run c (snd (Lookup c s d n)) ops) d n = (Inr x, run c (snd (Lookup c s d n)) ops)"
    using a(2) by (simp add: Lookup_resident)
qed

text \<open>
  C1 as stated fails: \<open>Create\<close> installs a new file node over a resident entry of the same
  name. In the root, \<open>Lookup\<close> of \<open>a\<close> returns the node at address 1; after a \<open>Create\<close> of
  \<open>a\<close> that the backend accepts, with no remove, rename or forget, \<open>Lookup\<close> of \<open>a\<close>
  returns the node at address 2.
\<close>

theorem Lookup_identity_counterexample:
  "fst (Lookup okCfs rootState 0 ''a'') = Inr 1 \<and>
   fst (Lookup okCfs (run okCfs (snd (Lookup okCfs rootState 0 ''a'')) [OpCreate 0 ''a'' 0]) 0 ''a'') = Inr 2"
  by (simp add: ops_defs scen_defs)

text \<open>The amended claim at the root directory, with a lookup of another name, an open of
  the file, and a create and a mkdir of other names between the two lookups.\<close>

theorem Lookup_identity_witness:
  "activeAt stateA 0 ''a'' = Some \<lparr>node = 1, kernel = True, refs = 0\<rparr> \<and>
   Lookup okCfs stateA 0 ''a'' = (Inr 1, stateA) \<and>
   fst (Lookup okCfs rootState 0 ''a'') = Inr 1 \<and>
   list_all (quiet 0 ''a'') [OpLookup 0 ''b'', OpOpen 1 0, OpCreate 0 ''c'' 1, OpMkdir 0 ''d''] \<and>
   fst (Lookup okCfs (run okCfs (snd (Lookup okCfs rootState 0 ''a''))
          [OpLookup 0 ''b'', OpOpen 1 0, OpCreate 0 ''c'' 1, OpMkdir 0 ''d'']) 0 ''a'') = Inr 1"
proof -
  have h1: "activeAt stateA 0 ''a'' = Some \<lparr>node = 1, kernel = True, refs = 0\<rparr>"
    by (simp add: ops_defs scen_defs)
  have h2: "fst (Lookup okCfs rootState 0 ''a'') = Inr 1 \<and>
      (\<forall>op\<in>set [OpLookup 0 ''b'', OpOpen 1 0, OpCreate 0 ''c'' 1, OpMkdir 0 ''d'']. quiet 0 ''a'' op)"
    by (simp add: ops_defs scen_defs)
  from Lookup_identity_stable [of stateA 0 "''a''" "\<lparr>node = 1, kernel = True, refs = 0\<rparr>" okCfs]
  have c1: "Lookup okCfs stateA 0 ''a'' = (Inr 1, stateA)" using h1 by simp
  from Lookup_identity_stable [of rootState 0 "''a''" _ okCfs 1
      "[OpLookup 0 ''b'', OpOpen 1 0, OpCreate 0 ''c'' 1, OpMkdir 0 ''d'']"]
  have c2: "fst (Lookup okCfs (run okCfs (snd (Lookup okCfs rootState 0 ''a''))
          [OpLookup 0 ''b'', OpOpen 1 0, OpCreate 0 ''c'' 1, OpMkdir 0 ''d'']) 0 ''a'') = Inr 1"
    using h2 by simp
  show ?thesis using h1 h2 c1 c2 by (simp add: list_all_iff)
qed

section \<open>The name and the parent of a node\<close>

lemma nameOf_alt:
  "nameOf s a = (case getDir s a of Some d \<Rightarrow> Some (d_name d) | None \<Rightarrow> map_option f_name (getFile s a))"
  by (auto simp: nameOf_def getDir_def getFile_def split: node.splits)

lemma parentOf_alt:
  "parentOf s a = (case getDir s a of Some d \<Rightarrow> d_parent d | None \<Rightarrow> Option.bind (getFile s a) f_parent)"
  by (auto simp: parentOf_def getDir_def getFile_def split: node.splits)

lemma live_cases:
  "a < length (heap s) \<Longrightarrow>
   (\<exists>d. getDir s a = Some d) \<or> (\<exists>f. getFile s a = Some f \<and> getDir s a = None)"
  by (auto simp: getDir_def getFile_def split: node.splits)

section \<open>The result codes of Mkdir\<close>

text \<open>What \<open>Mkdir\<close> does with each result code of the backend: the codes -1, 1, 2 and 17
  are errors and leave the children map alone; every other code, 0 or not, installs the
  new directory.\<close>

lemma Mkdir_codes:
  assumes "getDir s d = Some dd" and "CreateDirDirect c (calls s) (d_inode dd) n = (ret, ino)"
  shows "fst (Mkdir c s d n) =
           (if ret = - 1 then Inl EIO else if ret = 1 then Inl EPERM else if ret = 2 then Inl ENOENT
            else if ret = 17 then Inl EEXIST else Inr (length (heap s)))"
    and "activeAt (snd (Mkdir c s d n)) d n =
           (if ret \<in> {- 1, 1, 2, 17} then activeAt s d n
            else Some \<lparr>node = length (heap s), kernel = True, refs = 0\<rparr>)"
  using assms by (auto simp: Mkdir_def newDir_def Let_def split_beta dest: getDir_live)

text \<open>
  C4 (the code at the failing input). The claim has every non-zero code other than 1, 2 and
  17 answered with an I/O error and nothing installed. When the backend answers
  \<open>CreateDirDirect\<close> with code 3, \<open>Mkdir\<close> in the root returns a new directory node, at
  address 1, and installs it in the children map of the root.
\<close>

theorem Mkdir_code3_installs:
  "fst (Mkdir code3Cfs rootState 0 ''x'') = Inr 1 \<and>
   activeAt (snd (Mkdir code3Cfs rootState 0 ''x'')) 0 ''x'' = Some \<lparr>node = 1, kernel = True, refs = 0\<rparr>"
  by (simp add: ops_defs scen_defs)

section \<open>Forget\<close>



section \<open>Read at the end of the file\<close>

text \<open>
  C9. A \<open>Read\<close> on an open file (one with a session) at an offset equal to the size of the
  file returns zero bytes and no error, whatever the requested size, and makes no backend
  call: the log of calls is as before, so the session's read primitive is not invoked.
\<close>

theorem Read_at_eof:
  "getFile s f = Some fl \<Longrightarrow> f_cfile fl = Some cf \<Longrightarrow> offset = FileSize cf \<Longrightarrow>
   fst (Read c s f h offset sz) = Inr [] \<and> calls (snd (Read c s f h offset sz)) = calls s"
  by (simp add: Read_def Let_def)

text \<open>C9 at the file created in the root, of size 0: a read of 4096 bytes at offset 0.\<close>

theorem Read_at_eof_witness:
  "getFile stateCreated 1 \<noteq> None \<and>
   fst (Read okCfs stateCreated 1 5 0 4096) = Inr [] \<and>
   calls (snd (Read okCfs stateCreated 1 5 0 4096)) = calls stateCreated"
proof -
  have h: "getFile stateCreated 1 = Some \<lparr>f_inode = 7, f_parent = Some 0, f_name = ''a'',
             f_writers = 1, f_handles = 1, f_cfile = Some session0\<rparr>"
    by (simp add: ops_defs scen_defs)
  have e: "(0::int) = FileSize session0" by (simp add: session0_def)
  from Read_at_eof [OF h _ e, of okCfs 5 4096] h show ?thesis by simp
qed

section \<open>The entries installed by Create, Lookup and Mkdir\<close>



section \<open>Remove and Rename\<close>

lemma nameOf_setName:
  "nameOf (setName s a nm) b = (if a = b \<and> b < length (heap s) then Some nm else nameOf s b)"
  by (cases "getDir s b"; cases "getFile s b")
     (auto simp: nameOf_alt dest: getDir_live getFile_live live_cases)

lemma nameOf_frame [simp]:
  "nameOf (call s c) b = nameOf s b"
  "nameOf (setActive s a k e) b = nameOf s b"
  "nameOf (deleteActive s a k) b = nameOf s b"
  "nameOf (setParentInode s a p) b = nameOf s b"
  by (cases "getDir s b"; cases "getFile s b"; auto simp: nameOf_alt)+

lemma parentOf_setParentInode:
  "parentOf (setParentInode s a p) b = (if a = b \<and> b < length (heap s) then p else parentOf s b)"
  by (cases "getDir s b"; cases "getFile s b")
     (auto simp: parentOf_alt dest: getDir_live getFile_live live_cases)

lemma Lookup_result:
  "fst (Lookup c s d n) = Inr x \<Longrightarrow>
   (\<exists>a. activeAt s d n = Some a \<and> node a = x) \<or> x = length (heap s)"
  by (auto simp: Lookup_def activeAt_def reviveNode_def reviveDir_def newDir_def Let_def split_beta
           split: option.splits if_splits)

lemma activeAt_alloc_eq:
  "activeAt (snd (alloc s x)) d n =
     (if d = length (heap s) then (case x of DirN dd \<Rightarrow> d_active dd n | FileN _ \<Rightarrow> None)
      else activeAt s d n)"
  by (auto simp: activeAt_def split: option.splits node.splits)

lemma keptOutI:
  "x < length (heap s') \<Longrightarrow> (\<And>k e. activeAt s' d k = Some e \<Longrightarrow> node e \<noteq> x) \<Longrightarrow> keptOut s' d x"
  by (auto simp: keptOut_def)

lemma step_keptOut:
  assumes "keptOut s d x"
  shows "keptOut (step c s y) d x"
proof -
  from assms have live: "x < length (heap s)" "x \<noteq> length (heap s)"
    and out: "\<And>k e. activeAt s d k = Some e \<Longrightarrow> node e \<noteq> x"
    by (auto simp: keptOut_def)
  have out2: "\<And>dd k e. getDir s d = Some dd \<Longrightarrow> d_active dd k = Some e \<Longrightarrow> node e \<noteq> x"
    using out by (auto simp: activeAt_def)
  show ?thesis
  proof (cases y)
    case (OpLookup d' n')
    then show ?thesis using live out
      by (auto simp: keptOut_def Lookup_def reviveNode_def reviveDir_def newDir_def Let_def split_beta
          activeAt_alloc_eq split: option.splits if_splits)
  next
    case (OpCreate d' n' fl)
    then show ?thesis using live out
      by (auto simp: keptOut_def Create_def Let_def split_beta
          activeAt_alloc_eq split: option.splits if_splits)
  next
    case (OpMkdir d' n')
    then show ?thesis using live out
      by (auto simp: keptOut_def Mkdir_def newDir_def Let_def split_beta
          activeAt_alloc_eq split: option.splits if_splits)
  next
    case (OpForget d')
    then show ?thesis using live out
      by (auto simp: keptOut_def Forget_def forgetChild_def Let_def split_beta
          dest: out2 split: option.splits if_splits)
  next
    case (OpRemove d' n' isDir)
    then show ?thesis using live out
      by (auto simp: keptOut_def Remove_def Let_def split_beta
          split: option.splits if_splits)
  next
    case (OpRename d' o' d2 n')
    then show ?thesis using live out
      by (auto simp: keptOut_def Rename_def Let_def split_beta
          split: option.splits if_splits)
  qed (use live out in \<open>auto simp: keptOut_def ReadDirAll_def Open_def Release_def Read_def
          Write_def Flush_def Fsync_def Let_def split_beta split: option.splits\<close>)
qed

lemma run_keptOut: "keptOut s d x \<Longrightarrow> keptOut (run c s ys) d x"
  by (induction ys arbitrary: s) (auto simp: step_keptOut)

text \<open>
  C5. When \<open>Remove\<close> of \<open>n\<close> in \<open>d\<close> succeeds and \<open>n\<close> was resident, with a live node,
  the entry is deleted from the children map, the name of the detached node is the empty
  string, and a \<open>Lookup\<close> of \<open>n\<close> in \<open>d\<close> right after does not return the detached
  node. When the node was stored under no other name of \<open>d\<close>, no \<open>Lookup\<close> of \<open>n\<close> in
  \<open>d\<close> returns it after any sequence of further requests either.
\<close>

theorem Remove_detaches:
  assumes "activeAt s d n = Some a" and "node a < length (heap s)"
    and "Remove c s d n isDir = (Inr (), s')"
  shows "activeAt s' d n = None \<and> nameOf s' (node a) = Some [] \<and>
         fst (Lookup c' s' d n) \<noteq> Inr (node a) \<and>
         ((\<forall>k e. k \<noteq> n \<and> activeAt s d k = Some e \<longrightarrow> node e \<noteq> node a) \<longrightarrow>
          (\<forall>ops. fst (Lookup c' (run c'' s' ops) d n) \<noteq> Inr (node a)))"
proof -
  have s': "s' = setName (deleteActive (call s (if isDir then CallDeleteDirDirect (d_inode (the (getDir s d))) n
              else CallDeleteFileDirect (d_inode (the (getDir s d))) n)) d n) (node a) []"
    using assms(1,3)
    by (auto simp: Remove_def Let_def dest!: activeAt_SomeD split: option.splits if_splits)
  have 1: "activeAt s' d n = None" by (simp add: s')
  have 2: "nameOf s' (node a) = Some []" using assms(2) by (simp add: s' nameOf_setName)
  have len: "length (heap s') = length (heap s)" by (simp add: s')
  have 3: "fst (Lookup c' s' d n) \<noteq> Inr (node a)"
  proof
    assume "fst (Lookup c' s' d n) = Inr (node a)"
    from Lookup_result [OF this] 1 len assms(2) show False by auto
  qed
  have 4: "fst (Lookup c' (run c'' s' ops) d n) \<noteq> Inr (node a)"
    if other: "\<forall>k e. k \<noteq> n \<and> activeAt s d k = Some e \<longrightarrow> node e \<noteq> node a" for ops
  proof
    assume l: "fst (Lookup c' (run c'' s' ops) d n) = Inr (node a)"
    have "keptOut s' d (node a)"
      using other assms(2) by (auto simp: keptOut_def s')
    then have "keptOut (run c'' s' ops) d (node a)" by (rule run_keptOut)
    with Lookup_result [OF l] show False by (auto simp: keptOut_def)
  qed
  from 1 2 3 4 show ?thesis by blast
qed

text \<open>C5 at the file \<open>a\<close> of the root, looked up and then removed.\<close>

theorem Remove_detaches_witness:
  "activeAt stateA 0 ''a'' = Some \<lparr>node = 1, kernel = True, refs = 0\<rparr> \<and>
   fst (Remove okCfs stateA 0 ''a'' False) = Inr () \<and>
   activeAt stateRemoved 0 ''a'' = None \<and> nameOf stateRemoved 1 = Some [] \<and>
   fst (Lookup okCfs stateRemoved 0 ''a'') \<noteq> Inr 1 \<and>
   fst (Lookup okCfs (run okCfs stateRemoved [OpMkdir 0 ''b'', OpLookup 0 ''c'']) 0 ''a'') \<noteq> Inr 1"
proof -
  have a: "activeAt stateA 0 ''a'' = Some \<lparr>node = 1, kernel = True, refs = 0\<rparr>"
    by (simp add: ops_defs scen_defs)
  have l: "node \<lparr>node = 1, kernel = True, refs = 0\<rparr> < length (heap stateA)"
    by (simp add: ops_defs scen_defs)
  have r: "Remove okCfs stateA 0 ''a'' False = (Inr (), stateRemoved)"
    by (simp add: prod_eq_iff stateRemoved_def) (simp add: ops_defs scen_defs)
  have u: "\<forall>k e. k \<noteq> ''a'' \<and> activeAt stateA 0 k = Some e \<longrightarrow>
             node e \<noteq> node \<lparr>node = 1, kernel = True, refs = 0\<rparr>"
    by (simp add: ops_defs scen_defs)
  have f: "fst (Remove okCfs stateA 0 ''a'' False) = Inr ()"
    using r by simp
  note th = Remove_detaches [OF a l r, of okCfs okCfs]
  from th u have "\<forall>ops. fst (Lookup okCfs (run okCfs stateRemoved ops) 0 ''a'') \<noteq>
                        Inr (node \<lparr>node = 1, kernel = True, refs = 0\<rparr>)"
    by blast
  then have later: "fst (Lookup okCfs (run okCfs stateRemoved [OpMkdir 0 ''b'', OpLookup 0 ''c'']) 0 ''a'') \<noteq>
                        Inr (node \<lparr>node = 1, kernel = True, refs = 0\<rparr>)"
    by (rule spec)
  from th a f later show ?thesis by simp
qed

text \<open>
  C6. A same-directory \<open>Rename\<close> from \<open>a\<close> to \<open>b\<close> that completes, when \<open>a\<close> and \<open>b\<close>
  are both resident, with two different live nodes: the name of the old node of \<open>b\<close>
  becomes the empty string, the name of the node that was at \<open>a\<close> becomes \<open>b\<close>, its entry
  is stored under \<open>b\<close> and no longer under \<open>a\<close>, and the other entries stay. If the node
  was stored under \<open>a\<close> only, it ends up stored under \<open>b\<close> only.
\<close>

theorem Rename_same_dir_displaces:
  assumes "activeAt s d a = Some eA" and "activeAt s d b = Some eB" and "node eA \<noteq> node eB"
    and "node eA < length (heap s)" and "node eB < length (heap s)"
    and "Rename c s d a d b = (Inr (), s')"
  shows "nameOf s' (node eB) = Some [] \<and> nameOf s' (node eA) = Some b \<and>
         activeAt s' d b = Some eA \<and> activeAt s' d a = None \<and>
         (\<forall>k. k \<noteq> a \<and> k \<noteq> b \<longrightarrow> activeAt s' d k = activeAt s d k) \<and>
         ((\<forall>k e. activeAt s d k = Some e \<and> node e = node eA \<longrightarrow> k = a) \<longrightarrow>
          (\<forall>k e. activeAt s' d k = Some e \<and> node e = node eA \<longrightarrow> k = b))"
proof -
  from assms(1) obtain dd where dd: "getDir s d = Some dd" by (auto dest: activeAt_SomeD)
  from assms(1-3) have ab: "a \<noteq> b" by auto
  define s2 where "s2 = call (call s (CallStatDirect (d_inode dd) b))
                          (CallRenameDirect (d_inode dd) a (d_inode dd) b)"
  have s': "s' = setActive (deleteActive (setName (setName s2 (node eB) []) (node eA) b) d a) d b eA"
    using assms(1,2,6) dd
    by (auto simp: Rename_def Let_def split_beta s2_def split: option.splits if_splits)
  have act: "activeAt s' d k = (if k = b then Some eA else if k = a then None else activeAt s d k)" for k
    using dd by (simp add: s' s2_def)
  have 1: "nameOf s' (node eB) = Some []"
    using assms(3,5) by (simp add: s' s2_def nameOf_setName)
  have 2: "nameOf s' (node eA) = Some b"
    using assms(4) by (simp add: s' s2_def nameOf_setName)
  from act ab 1 2 show ?thesis by auto
qed

text \<open>C6 in the root, with the files \<open>a\<close> and \<open>b\<close> resident, on a backend that no longer
  has \<open>b\<close>.\<close>

theorem Rename_same_dir_displaces_witness:
  "activeAt stateAB 0 ''a'' = Some \<lparr>node = 1, kernel = True, refs = 0\<rparr> \<and>
   activeAt stateAB 0 ''b'' = Some \<lparr>node = 2, kernel = True, refs = 0\<rparr> \<and>
   fst (Rename newCfs stateAB 0 ''a'' 0 ''b'') = Inr () \<and>
   nameOf (snd (Rename newCfs stateAB 0 ''a'' 0 ''b'')) 2 = Some [] \<and>
   nameOf (snd (Rename newCfs stateAB 0 ''a'' 0 ''b'')) 1 = Some ''b'' \<and>
   activeAt (snd (Rename newCfs stateAB 0 ''a'' 0 ''b'')) 0 ''b'' = Some \<lparr>node = 1, kernel = True, refs = 0\<rparr> \<and>
   activeAt (snd (Rename newCfs stateAB 0 ''a'' 0 ''b'')) 0 ''a'' = None"
proof -
  have a: "activeAt stateAB 0 ''a'' = Some \<lparr>node = 1, kernel = True, refs = 0\<rparr>"
    by (simp add: ops_defs scen_defs)
  have b: "activeAt stateAB 0 ''b'' = Some \<lparr>node = 2, kernel = True, refs = 0\<rparr>"
    by (simp add: ops_defs scen_defs)
  have len: "length (heap stateAB) = 3"
    by (simp add: ops_defs scen_defs)
  have f: "fst (Rename newCfs stateAB 0 ''a'' 0 ''b'') = Inr ()"
    by (simp add: ops_defs scen_defs)
  then have r: "Rename newCfs stateAB 0 ''a'' 0 ''b'' = (Inr (), snd (Rename newCfs stateAB 0 ''a'' 0 ''b''))"
    by (simp add: prod_eq_iff)
  from Rename_same_dir_displaces [OF a b _ _ _ r] a b f len show ?thesis by simp
qed

text \<open>
  C7. A \<open>Rename\<close> from \<open>old\<close> in \<open>d\<close> to \<open>new\<close> in another directory \<open>d2\<close> that succeeds,
  when \<open>old\<close> was resident in \<open>d\<close> with a live node: the entry is removed from the map of
  \<open>d\<close>, the name of the node is \<open>new\<close> and its parent is \<open>d2\<close>, and the map of \<open>d2\<close> is
  left unchanged: the node is not inserted there. The other entries of \<open>d\<close> stay.
\<close>

theorem Rename_cross_dir:
  assumes "d2 \<noteq> d" and "activeAt s d old = Some e" and "node e < length (heap s)"
    and "Rename c s d old d2 new = (Inr (), s')"
  shows "activeAt s' d old = None \<and> nameOf s' (node e) = Some new \<and>
         parentOf s' (node e) = Some d2 \<and>
         (\<forall>k. activeAt s' d2 k = activeAt s d2 k) \<and>
         (\<forall>k. k \<noteq> old \<longrightarrow> activeAt s' d k = activeAt s d k)"
proof -
  from assms(2) obtain dd where dd: "getDir s d = Some dd" by (auto dest: activeAt_SomeD)
  from assms(4) dd obtain nd where nd: "getDir s d2 = Some nd"
    by (auto simp: Rename_def split: option.splits)
  define s2 where "s2 = call (call s (CallStatDirect (d_inode nd) new))
                          (CallRenameDirect (d_inode dd) old (d_inode nd) new)"
  have s': "s' = setParentInode (setName (deleteActive s2 d old) (node e) new) (node e) (Some d2)"
    using assms(1,2,4) dd nd
    by (auto simp: Rename_def Let_def split_beta s2_def split: option.splits if_splits)
  have 1: "activeAt s' d k = (if k = old then None else activeAt s d k)" for k
    by (simp add: s' s2_def)
  have 2: "activeAt s' d2 k = activeAt s d2 k" for k
    using assms(1) by (simp add: s' s2_def)
  have 3: "nameOf s' (node e) = Some new"
    using assms(3) by (simp add: s' s2_def nameOf_setName)
  have 4: "parentOf s' (node e) = Some d2"
    using assms(3) by (simp add: s' s2_def parentOf_setParentInode)
  from 1 2 3 4 show ?thesis by simp
qed

text \<open>C7: the file \<open>a\<close> of the root moved to \<open>z\<close> in the directory \<open>sub\<close>.\<close>

theorem Rename_cross_dir_witness:
  "activeAt stateSub 0 ''a'' = Some \<lparr>node = 1, kernel = True, refs = 0\<rparr> \<and>
   fst (Rename newCfs stateSub 0 ''a'' 2 ''z'') = Inr () \<and>
   activeAt (snd (Rename newCfs stateSub 0 ''a'' 2 ''z'')) 0 ''a'' = None \<and>
   nameOf (snd (Rename newCfs stateSub 0 ''a'' 2 ''z'')) 1 = Some ''z'' \<and>
   parentOf (snd (Rename newCfs stateSub 0 ''a'' 2 ''z'')) 1 = Some 2 \<and>
   activeAt (snd (Rename newCfs stateSub 0 ''a'' 2 ''z'')) 2 ''z'' = None"
proof -
  have a: "activeAt stateSub 0 ''a'' = Some \<lparr>node = 1, kernel = True, refs = 0\<rparr>"
    by (simp add: ops_defs scen_defs)
  have z: "activeAt stateSub 2 ''z'' = None"
    by (simp add: ops_defs scen_defs)
  have len: "length (heap stateSub) = 3"
    by (simp add: ops_defs scen_defs)
  have f: "fst (Rename newCfs stateSub 0 ''a'' 2 ''z'') = Inr ()"
    by (simp add: ops_defs scen_defs)
  then have r: "Rename newCfs stateSub 0 ''a'' 2 ''z'' = (Inr (), snd (Rename newCfs stateSub 0 ''a'' 2 ''z''))"
    by (simp add: prod_eq_iff)
  have "(2::nat) \<noteq> 0" by simp
  from Rename_cross_dir [OF this a _ r] a z f len show ?thesis by simp
qed

section \<open>Handles, writers and the session of a file\<close>

lemma step_other_file:
  assumes "getFile s f = Some fl" and "\<not> isOpenOf f y" and "\<not> isReleaseOf f y"
  shows "\<exists>fl'. getFile (step c s y) f = Some fl' \<and> f_writers fl' = f_writers fl \<and>
           f_handles fl' = f_handles fl \<and> (f_cfile fl' = None \<longleftrightarrow> f_cfile fl = None)"
proof -
  from assms(1) have live: "f \<noteq> length (heap s)" by (auto dest: getFile_live)
  show ?thesis
  proof (cases y)
    case (OpLookup d n)
    then show ?thesis using assms(1) live
      by (auto simp: Lookup_def reviveNode_def reviveDir_def newDir_def Let_def split_beta
          split: option.splits if_splits)
  next
    case (OpRemove d n isDir)
    then show ?thesis using assms(1) live
      by (auto simp: Remove_def Let_def split_beta split: option.splits if_splits)
  next
    case (OpRename d n d2 n2)
    then show ?thesis using assms(1) live
      by (auto simp: Rename_def Let_def split_beta split: option.splits if_splits)
  next
    case (OpForget d)
    then show ?thesis using assms(1) live
      by (auto simp: Forget_def forgetChild_def Let_def split_beta split: option.splits if_splits)
  next
    case (OpOpen g fl)
    then show ?thesis using assms live
      by (auto simp: Open_def Let_def split_beta split: option.splits if_splits)
  next
    case (OpRelease g fl)
    then show ?thesis using assms live
      by (auto simp: Release_def Let_def split_beta split: option.splits if_splits)
  qed (use assms(1) live in \<open>auto simp: ReadDirAll_def Create_def Mkdir_def newDir_def Read_def
          Write_def Flush_def Fsync_def Let_def split_beta split: option.splits\<close>)
qed

lemma Open_file:
  assumes "getFile s f = Some fl"
  shows "\<exists>fl'. getFile (snd (Open c s f flags)) f = Some fl' \<and>
           (if isOk (Open c s f flags)
            then f_handles fl' = f_handles fl + 1 \<and>
                 f_writers fl' = (if writeIntent flags then f_writers fl + 1 else f_writers fl) \<and>
                 (writeIntent flags \<longrightarrow> f_writers fl = 0) \<and>
                 (f_cfile fl' = None \<longleftrightarrow>
                    (if f_cfile fl = None \<and> f_handles fl = 0
                     then \<exists>p pd. f_parent fl = Some p \<and> getDir s p = Some pd \<and>
                            OpenFileDirect c (calls s) (d_inode pd) (f_name fl) flags = (0, None)
                     else f_cfile fl = None))
            else f_handles fl' = f_handles fl \<and> f_writers fl' = f_writers fl)"
  using assms
  by (auto simp: Open_def isOk_def Let_def split_beta word_gt_0 prod_eq_iff
      split: option.splits if_splits)

lemma Release_file:
  assumes "getFile s f = Some fl"
  shows "\<exists>fl'. getFile (snd (Release c s f flags)) f = Some fl' \<and>
           f_handles fl' = f_handles fl - 1 \<and>
           (if isOk (Release c s f flags)
            then f_writers fl' = (if writeIntent flags then f_writers fl - 1 else f_writers fl) \<and>
                 (f_cfile fl' = None \<longleftrightarrow> f_handles fl - 1 = 0 \<or> f_cfile fl = None)
            else f_writers fl' = f_writers fl)"
  using assms
  by (auto simp: Release_def isOk_def Let_def split_beta split: option.splits if_splits)


lemma opens_Cons [simp]: "opens f (x # xs) = (if isOpenOf f x then Suc (opens f xs) else opens f xs)"
  by (simp add: opens_def)

lemma releases_Cons [simp]:
  "releases f (x # xs) = (if isReleaseOf f x then Suc (releases f xs) else releases f xs)"
  by (simp add: releases_def)

lemma opens_Nil [simp]: "opens f [] = 0" and releases_Nil [simp]: "releases f [] = 0"
  by (simp_all add: opens_def releases_def)

lemma not_open_and_release: "isOpenOf f x \<Longrightarrow> \<not> isReleaseOf f x"
  by (cases x) auto

lemma isOpenOfD: "isOpenOf f x \<Longrightarrow> \<exists>flags. x = OpOpen f flags"
  by (cases x) auto

lemma isReleaseOfD: "isReleaseOf f x \<Longrightarrow> \<exists>flags. x = OpRelease f flags"
  by (cases x) auto

lemma unat_handles_Suc: "Suc (unat (h :: 32 word)) < 2 ^ 32 \<Longrightarrow> unat (h + 1) = Suc (unat h)"
  by (simp add: unat_word_ariths)

lemma unat_handles_pred: "0 < unat (h :: 32 word) \<Longrightarrow> unat (h - 1) = unat h - 1"
  by (simp add: unat_minus_one unat_gt_0)

lemma open_step_counts:
  assumes "handleCount s f = Some n" and "hasSession s f = Some (0 < n)" and "sessionOnSuccess c"
    and "Suc n < 2 ^ 32" and "isOk (Open c s f flags)"
  shows "handleCount (snd (Open c s f flags)) f = Some (Suc n) \<and>
         hasSession (snd (Open c s f flags)) f = Some True"
proof -
  from assms(1) obtain fl where fl: "getFile s f = Some fl" "n = unat (f_handles fl)"
    by (auto simp: handleCount_def)
  from assms(2) fl have ses: "f_cfile fl \<noteq> None \<longleftrightarrow> 0 < n"
    by (simp add: hasSession_def)
  from Open_file [OF fl(1), of c flags] assms(5)
  obtain fl' where fl': "getFile (snd (Open c s f flags)) f = Some fl'"
      "f_handles fl' = f_handles fl + 1"
      "f_cfile fl' = None \<longleftrightarrow>
         (if f_cfile fl = None \<and> f_handles fl = 0
          then \<exists>p pd. f_parent fl = Some p \<and> getDir s p = Some pd \<and>
                 OpenFileDirect c (calls s) (d_inode pd) (f_name fl) flags = (0, None)
          else f_cfile fl = None)"
    by auto
  have "f_cfile fl' \<noteq> None"
  proof (cases "f_cfile fl = None \<and> f_handles fl = 0")
    case True
    have "OpenFileDirect c (calls s) i nm flags \<noteq> (0, None)" for i nm
      using assms(3) unfolding sessionOnSuccess_def by (metis fst_conv snd_conv)
    with True fl'(3) show ?thesis by auto
  next
    case False
    with ses fl(2) have "f_cfile fl \<noteq> None" by (auto simp: unat_gt_0)
    with False fl'(3) show ?thesis by auto
  qed
  moreover have "unat (f_handles fl') = Suc n"
    using assms(4) fl(2) fl'(2) by (simp add: unat_handles_Suc)
  ultimately show ?thesis using fl'(1) by (simp add: handleCount_def hasSession_def)
qed

lemma release_step_counts:
  assumes "handleCount s f = Some n" and "hasSession s f = Some (0 < n)"
    and "0 < n" and "isOk (Release c s f flags)"
  shows "handleCount (snd (Release c s f flags)) f = Some (n - 1) \<and>
         hasSession (snd (Release c s f flags)) f = Some (0 < n - 1)"
proof -
  from assms(1) obtain fl where fl: "getFile s f = Some fl" "n = unat (f_handles fl)"
    by (auto simp: handleCount_def)
  from assms(2,3) fl have ses: "f_cfile fl \<noteq> None"
    by (simp add: hasSession_def)
  from Release_file [OF fl(1), of c flags]
  obtain fl' where raw: "getFile (snd (Release c s f flags)) f = Some fl' \<and>
           f_handles fl' = f_handles fl - 1 \<and>
           (if isOk (Release c s f flags)
            then f_writers fl' = (if writeIntent flags then f_writers fl - 1 else f_writers fl) \<and>
                 (f_cfile fl' = None \<longleftrightarrow> f_handles fl - 1 = 0 \<or> f_cfile fl = None)
            else f_writers fl' = f_writers fl)"
    by blast
  with assms(4) have fl': "getFile (snd (Release c s f flags)) f = Some fl'"
      "f_handles fl' = f_handles fl - 1"
      "f_cfile fl' = None \<longleftrightarrow> f_handles fl - 1 = 0 \<or> f_cfile fl = None"
    by simp_all
  have h: "unat (f_handles fl') = n - 1"
    using assms(3) fl(2) fl'(2) by (simp add: unat_handles_pred)
  have "f_handles fl' = 0 \<longleftrightarrow> n - 1 = 0"
    using h by (simp add: unat_0_iff [symmetric])
  then have "f_cfile fl' \<noteq> None \<longleftrightarrow> 0 < n - 1"
    using fl'(2,3) ses by auto
  with h fl'(1) show ?thesis by (simp add: handleCount_def hasSession_def)
qed

lemma other_step_counts:
  assumes "getFile s f \<noteq> None" and "\<not> isOpenOf f x" and "\<not> isReleaseOf f x"
  shows "handleCount (step c s x) f = handleCount s f \<and>
         writerCount (step c s x) f = writerCount s f \<and>
         hasSession (step c s x) f = hasSession s f"
proof -
  from assms(1) obtain fl where fl: "getFile s f = Some fl" by auto
  from step_other_file [OF fl assms(2,3), of c] fl show ?thesis
    by (auto simp: handleCount_def writerCount_def hasSession_def)
qed

lemma sessionOnSuccess_okCfs: "sessionOnSuccess okCfs"
  by (simp add: sessionOnSuccess_def okCfs_def)

lemma Open_okCfs:
  assumes "getFile s f = Some fl" and "f_parent fl = Some p" and "getDir s p = Some pd"
    and "f_cfile fl = None \<longrightarrow> f_handles fl = 0"
  shows "isOk (Open okCfs s f 0) \<and>
         (\<exists>fl'. getFile (snd (Open okCfs s f 0)) f = Some fl' \<and>
                f_handles fl' = f_handles fl + 1 \<and> f_parent fl' = Some p \<and> f_cfile fl' \<noteq> None) \<and>
         getDir (snd (Open okCfs s f 0)) p = Some pd"
  using assms
  by (auto simp: Open_def okCfs_def isOk_def writeIntent_def Let_def)

lemma many_opens:
  assumes "getFile s f = Some fl" and "f_parent fl = Some p" and "getDir s p = Some pd"
    and "f_cfile fl = None \<longrightarrow> f_handles fl = 0"
  shows "\<exists>s' fl'. okRun okCfs f s (replicate n (OpOpen f 0)) = Some s' \<and>
           getFile s' f = Some fl' \<and> f_handles fl' = f_handles fl + of_nat n \<and>
           (0 < n \<longrightarrow> f_cfile fl' \<noteq> None)"
  using assms
proof (induction n arbitrary: s fl)
  case 0
  then show ?case by simp
next
  case (Suc n)
  from Open_okCfs [OF Suc.prems]
  obtain fl1 where ok: "isOk (Open okCfs s f 0)"
    and fl1: "getFile (snd (Open okCfs s f 0)) f = Some fl1" "f_handles fl1 = f_handles fl + 1"
      "f_parent fl1 = Some p" "f_cfile fl1 \<noteq> None"
    and pd: "getDir (snd (Open okCfs s f 0)) p = Some pd"
    by blast
  from fl1(4) have "f_cfile fl1 = None \<longrightarrow> f_handles fl1 = 0" by blast
  from Suc.IH [OF fl1(1) fl1(3) pd this]
  obtain s' fl' where r: "okRun okCfs f (snd (Open okCfs s f 0)) (replicate n (OpOpen f 0)) = Some s'"
    "getFile s' f = Some fl'" "f_handles fl' = f_handles fl1 + of_nat n"
    "0 < n \<longrightarrow> f_cfile fl' \<noteq> None"
    by blast
  have c: "f_cfile fl' \<noteq> None"
  proof (cases n)
    case 0
    with r(1,2) fl1(1,4) show ?thesis by simp
  next
    case (Suc m)
    with r(4) show ?thesis by simp
  qed
  from ok r(1) have "okRun okCfs f s (replicate (Suc n) (OpOpen f 0)) = Some s'" by simp
  moreover have "f_handles fl' = f_handles fl + of_nat (Suc n)"
    using r(3) fl1(2) by simp
  ultimately show ?case using r(2) c by blast
qed

lemma balanced_opens: "balanced f k (replicate n (OpOpen f flags))"
  by (induction n arbitrary: k) simp_all

lemma opens_replicate: "opens f (replicate n (OpOpen f flags)) = n"
  by (simp add: opens_def filter_replicate)

lemma releases_replicate: "releases f (replicate n (OpOpen f flags)) = 0"
  by (simp add: releases_def filter_replicate)

text \<open>
  C3 (amended). Take a file node whose session is present iff its handle count \<open>n\<close> is
  positive (a node made by \<open>Lookup\<close>, with \<open>n = 0\<close>, or by \<open>Create\<close>, which counts as one
  open, with \<open>n = 1\<close>), a backend that returns a session whenever it reports a successful
  open, and any sequence of requests in which every \<open>Open\<close> and \<open>Release\<close> of the file
  succeeds, no handle is released when none is open, and fewer than \<open>2 ^ 32\<close> handles of
  the file are open at any time. Then the releases do not outnumber \<open>n\<close> plus the opens,
  the handle count after the sequence is \<open>n\<close> plus the opens minus the releases, and the
  session is present iff that count is positive.
\<close>

theorem handle_accounting:
  assumes "handleCount s f = Some n" and "hasSession s f = Some (0 < n)" and "sessionOnSuccess c"
    and "within f n xs" and "okRun c f s xs = Some s'"
  shows "releases f xs \<le> n + opens f xs \<and>
         handleCount s' f = Some (n + opens f xs - releases f xs) \<and>
         hasSession s' f = Some (0 < n + opens f xs - releases f xs)"
  using assms(1,2,4,5)
proof (induction xs arbitrary: s n)
  case Nil
  then show ?case by simp
next
  case (Cons x xs)
  show ?case
  proof (cases "isOpenOf f x")
    case True
    then obtain flags where x: "x = OpOpen f flags" by (auto dest: isOpenOfD)
    from Cons.prems(3) x have n: "Suc n < 2 ^ 32" and w: "within f (Suc n) xs" by simp_all
    from Cons.prems(4) x have ok: "isOk (Open c s f flags)"
      and r: "okRun c f (snd (Open c s f flags)) xs = Some s'"
      by (simp_all split: if_splits)
    from open_step_counts [OF Cons.prems(1,2) assms(3) n ok]
    have "handleCount (snd (Open c s f flags)) f = Some (Suc n)"
      and "hasSession (snd (Open c s f flags)) f = Some (0 < Suc n)" by simp_all
    from Cons.IH [OF this w r] x show ?thesis by simp
  next
    case notOpen: False
    show ?thesis
    proof (cases "isReleaseOf f x")
      case True
      then obtain flags where x: "x = OpRelease f flags" by (auto dest: isReleaseOfD)
      from Cons.prems(3) x have n: "0 < n" and w: "within f (n - 1) xs" by simp_all
      from Cons.prems(4) x have ok: "isOk (Release c s f flags)"
        and r: "okRun c f (snd (Release c s f flags)) xs = Some s'"
        by (simp_all split: if_splits)
      from release_step_counts [OF Cons.prems(1,2) n ok]
      have "handleCount (snd (Release c s f flags)) f = Some (n - 1)"
        and "hasSession (snd (Release c s f flags)) f = Some (0 < n - 1)" by simp_all
      from Cons.IH [OF this w r] x n show ?thesis by auto
    next
      case False
      from Cons.prems(1) have "getFile s f \<noteq> None" by (auto simp: handleCount_def)
      from other_step_counts [OF this notOpen False, of c] Cons.prems(1,2)
      have "handleCount (step c s x) f = Some n" and "hasSession (step c s x) f = Some (0 < n)"
        by simp_all
      moreover from Cons.prems(3) notOpen False have "within f n xs" by simp
      moreover from Cons.prems(4) notOpen False have "okRun c f (step c s x) xs = Some s'" by simp
      ultimately show ?thesis using Cons.IH notOpen False by simp
    qed
  qed
qed

text \<open>
  C3 as stated fails: \<open>handles\<close> is a \<open>uint32\<close>. On the file \<open>a\<close> of the root, fresh from
  \<open>Lookup\<close>, \<open>2 ^ 32\<close> successful read-only opens and no release leave the handle count at
  0, not at \<open>2 ^ 32\<close>, with the session present.
\<close>

theorem handle_accounting_counterexample:
  "sessionOnSuccess okCfs \<and>
   handleCount stateA 1 = Some 0 \<and> hasSession stateA 1 = Some False \<and>
   balanced 1 0 (replicate (2 ^ 32) (OpOpen 1 0)) \<and>
   opens 1 (replicate (2 ^ 32) (OpOpen 1 0)) - releases 1 (replicate (2 ^ 32) (OpOpen 1 0)) = 2 ^ 32 \<and>
   countsAfter okCfs 1 stateA (replicate (2 ^ 32) (OpOpen 1 0)) = Some (Some 0, Some True)"
proof -
  have f: "getFile stateA 1 = Some \<lparr>f_inode = 7, f_parent = Some 0, f_name = ''a'',
             f_writers = 0, f_handles = 0, f_cfile = None\<rparr>"
    by (simp add: ops_defs scen_defs)
  have d: "getDir stateA 0 = Some \<lparr>d_inode = 0, d_parent = None, d_name = [],
             d_active = [''a'' \<mapsto> \<lparr>node = 1, kernel = True, refs = 0\<rparr>]\<rparr>"
    by (simp add: ops_defs scen_defs)
  from many_opens [OF f _ d, of "2 ^ 32"]
  obtain s' fl' where r: "okRun okCfs 1 stateA (replicate (2 ^ 32) (OpOpen 1 0)) = Some s'"
    "getFile s' 1 = Some fl'" "f_handles fl' = 0 + of_nat (2 ^ 32)" "f_cfile fl' \<noteq> None"
    by auto
  have "(of_nat (2 ^ 32) :: 32 word) = 0" by simp
  with r(3) have "f_handles fl' = 0" by simp
  with r(1,2,4) have "countsAfter okCfs 1 stateA (replicate (2 ^ 32) (OpOpen 1 0)) = Some (Some 0, Some True)"
    by (simp add: countsAfter_def handleCount_def hasSession_def)
  moreover have "handleCount stateA 1 = Some 0 \<and> hasSession stateA 1 = Some False"
    using f by (simp add: handleCount_def hasSession_def)
  ultimately show ?thesis
    by (simp only: sessionOnSuccess_okCfs balanced_opens opens_replicate releases_replicate) simp
qed

text \<open>The amended claim on the file created in the root (one handle open): an open, a
  read and two releases leave no handle open and no session.\<close>

theorem handle_accounting_witness:
  "handleCount stateCreated 1 = Some 1 \<and> hasSession stateCreated 1 = Some True \<and>
   sessionOnSuccess okCfs \<and>
   within 1 1 [OpOpen 1 0, OpRead 1 5 0 10, OpRelease 1 0, OpRelease 1 1] \<and>
   okRun okCfs 1 stateCreated [OpOpen 1 0, OpRead 1 5 0 10, OpRelease 1 0, OpRelease 1 1] \<noteq> None \<and>
   countsAfter okCfs 1 stateCreated [OpOpen 1 0, OpRead 1 5 0 10, OpRelease 1 0, OpRelease 1 1] =
     Some (Some 0, Some False)"
proof -
  have h: "handleCount stateCreated 1 = Some 1"
    by (simp add: handleCount_def ops_defs scen_defs)
  have c: "hasSession stateCreated 1 = Some (0 < (1::nat))"
    by (simp add: hasSession_def ops_defs scen_defs)
  have w: "within 1 1 [OpOpen 1 0, OpRead 1 5 0 10, OpRelease 1 0, OpRelease 1 1]"
    by simp
  have "okRun okCfs 1 stateCreated [OpOpen 1 0, OpRead 1 5 0 10, OpRelease 1 0, OpRelease 1 1] \<noteq> None"
    by (simp add: ops_defs scen_defs isOk_def writeIntent_def O_WRONLY_def O_RDWR_def O_TRUNC_def)
  then obtain s' where
    r: "okRun okCfs 1 stateCreated [OpOpen 1 0, OpRead 1 5 0 10, OpRelease 1 0, OpRelease 1 1] = Some s'"
    by blast
  from handle_accounting [OF h c sessionOnSuccess_okCfs w r]
  have "handleCount s' 1 = Some 0 \<and> hasSession s' 1 = Some False"
    by (simp add: opens_def releases_def)
  with r h c w show ?thesis
    by (simp add: countsAfter_def sessionOnSuccess_okCfs)
qed

lemma kernelRun_other:
  "\<not> isOpenOf f x \<Longrightarrow> \<not> isReleaseOf f x \<Longrightarrow>
   kernelRun c f (s, hs) (x # xs) = kernelRun c f (step c s x, hs) xs"
  by (cases x) auto

lemma filter_mem_pos: "x \<in> set xs \<Longrightarrow> P x \<Longrightarrow> 0 < length (filter P xs)"
  by (induction xs) auto

lemma filter_remove1_length:
  "x \<in> set xs \<Longrightarrow>
   length (filter P (remove1 x xs)) = (if P x then length (filter P xs) - 1 else length (filter P xs))"
proof (induction xs)
  case Nil
  then show ?case by simp
next
  case (Cons a xs)
  then show ?case using filter_mem_pos [of x xs P] by (cases "x = a") auto
qed

lemma open_step_writers:
  assumes "writerCount s f = Some w" and "length (filter writeIntent hs) \<le> w" and "w \<le> 1"
  shows "\<exists>w'. writerCount (snd (Open c s f flags)) f = Some w' \<and>
           length (filter writeIntent (if isOk (Open c s f flags) then flags # hs else hs)) \<le> w' \<and>
           w' \<le> 1"
proof -
  from assms(1) obtain fl where fl: "getFile s f = Some fl" "w = unat (f_writers fl)"
    by (auto simp: writerCount_def)
  from Open_file [OF fl(1), of c flags]
  obtain fl' where raw: "getFile (snd (Open c s f flags)) f = Some fl'"
    "isOk (Open c s f flags) \<Longrightarrow>
       f_writers fl' = (if writeIntent flags then f_writers fl + 1 else f_writers fl) \<and>
       (writeIntent flags \<longrightarrow> f_writers fl = 0)"
    "\<not> isOk (Open c s f flags) \<Longrightarrow> f_writers fl' = f_writers fl"
    by (auto split: if_splits)
  show ?thesis
  proof (cases "isOk (Open c s f flags)")
    case True
    with raw(2) fl(2) assms(2,3) have
      "length (filter writeIntent (flags # hs)) \<le> unat (f_writers fl') \<and> unat (f_writers fl') \<le> 1"
      by (auto split: if_splits)
    with True raw(1) show ?thesis by (simp add: writerCount_def)
  next
    case False
    with raw(1,3) fl(2) assms(2,3) show ?thesis by (simp add: writerCount_def)
  qed
qed

lemma release_step_writers:
  assumes "writerCount s f = Some w" and "length (filter writeIntent hs) \<le> w" and "w \<le> 1"
    and "flags \<in> set hs"
  shows "\<exists>w'. writerCount (snd (Release c s f flags)) f = Some w' \<and>
           length (filter writeIntent (remove1 flags hs)) \<le> w' \<and> w' \<le> 1"
proof -
  from assms(1) obtain fl where fl: "getFile s f = Some fl" "w = unat (f_writers fl)"
    by (auto simp: writerCount_def)
  from Release_file [OF fl(1), of c flags]
  obtain fl' where raw: "getFile (snd (Release c s f flags)) f = Some fl'"
    "isOk (Release c s f flags) \<Longrightarrow>
       f_writers fl' = (if writeIntent flags then f_writers fl - 1 else f_writers fl)"
    "\<not> isOk (Release c s f flags) \<Longrightarrow> f_writers fl' = f_writers fl"
    by (auto split: if_splits)
  have len: "length (filter writeIntent (remove1 flags hs)) =
               (if writeIntent flags then length (filter writeIntent hs) - 1
                else length (filter writeIntent hs))"
    using assms(4) by (rule filter_remove1_length)
  show ?thesis
  proof (cases "writeIntent flags")
    case True
    with assms(4) have "0 < length (filter writeIntent hs)" by (rule filter_mem_pos)
    with assms(2,3) have w1: "w = 1" and l1: "length (filter writeIntent hs) = 1" by linarith+
    from w1 fl(2) have "f_writers fl = 1" by (simp add: word_unat_eq_iff)
    with raw(2,3) True have "unat (f_writers fl') \<le> 1"
      by (cases "isOk (Release c s f flags)") simp_all
    with raw(1) len True l1 show ?thesis by (simp add: writerCount_def)
  next
    case False
    with raw(2,3) have "f_writers fl' = f_writers fl"
      by (cases "isOk (Release c s f flags)") simp_all
    with raw(1) len False fl(2) assms(2,3) show ?thesis by (simp add: writerCount_def)
  qed
qed

lemma kernelRun_writers:
  assumes "writerCount s f = Some w" and "length (filter writeIntent hs) \<le> w" and "w \<le> 1"
    and "kernelRun c f (s, hs) xs = Some (s', hs')"
  shows "\<exists>w'. writerCount s' f = Some w' \<and> length (filter writeIntent hs') \<le> w' \<and> w' \<le> 1"
  using assms
proof (induction xs arbitrary: s hs w)
  case Nil
  then show ?case by simp
next
  case (Cons x xs)
  show ?case
  proof (cases "isOpenOf f x")
    case True
    then obtain flags where x: "x = OpOpen f flags" by (auto dest: isOpenOfD)
    from open_step_writers [OF Cons.prems(1-3), of c flags]
    obtain w1 where w1: "writerCount (snd (Open c s f flags)) f = Some w1"
      "length (filter writeIntent (if isOk (Open c s f flags) then flags # hs else hs)) \<le> w1"
      "w1 \<le> 1" by blast
    from Cons.prems(4) x
    have "kernelRun c f (snd (Open c s f flags),
            if isOk (Open c s f flags) then flags # hs else hs) xs = Some (s', hs')"
      by simp
    from Cons.IH [OF w1 this] show ?thesis .
  next
    case notOpen: False
    show ?thesis
    proof (cases "isReleaseOf f x")
      case True
      then obtain flags where x: "x = OpRelease f flags" by (auto dest: isReleaseOfD)
      from Cons.prems(4) x have m: "flags \<in> set hs"
        and r: "kernelRun c f (snd (Release c s f flags), remove1 flags hs) xs = Some (s', hs')"
        by (simp_all split: if_splits)
      from release_step_writers [OF Cons.prems(1-3) m, of c]
      obtain w1 where w1: "writerCount (snd (Release c s f flags)) f = Some w1"
        "length (filter writeIntent (remove1 flags hs)) \<le> w1" "w1 \<le> 1" by blast
      from Cons.IH [OF w1 r] show ?thesis .
    next
      case False
      from Cons.prems(1) have "getFile s f \<noteq> None" by (auto simp: writerCount_def)
      from other_step_counts [OF this notOpen False, of c] Cons.prems(1)
      have 1: "writerCount (step c s x) f = Some w" by simp
      from Cons.prems(4) have "kernelRun c f (step c s x, hs) xs = Some (s', hs')"
        by (simp add: kernelRun_other [OF notOpen False])
      from Cons.IH [OF 1 Cons.prems(2,3) this] show ?thesis .
    qed
  qed
qed

text \<open>
  C2. An \<open>Open\<close> with write intent (\<open>O_WRONLY\<close> or \<open>O_RDWR\<close> in the flags) on a file
  whose writer count is positive returns \<open>EPERM\<close> and leaves the whole state as it is: the
  handle count, the writer count, the session and the log of backend calls. And the writer
  count never exceeds 1: from a state where the handles open with write intent are no
  more than the writer count, and the writer count is at most 1 (a file fresh from
  \<open>Lookup\<close>, or from \<open>Create\<close> with its one handle), every run driven by the kernel, in
  which a release is sent for an open handle with the flags of that handle, ends with a
  writer count of at most 1 and at most one open handle with write intent.
\<close>

theorem single_writer:
  "(getFile s f = Some fl \<and> f_parent fl = Some p \<and> getDir s p = Some pd \<and>
    0 < f_writers fl \<and> writeIntent flags \<longrightarrow> Open c s f flags = (Inl EPERM, s)) \<and>
   (writerCount s f = Some w \<and> length (filter writeIntent hs) \<le> w \<and> w \<le> 1 \<and>
    kernelRun c f (s, hs) xs = Some (s', hs') \<longrightarrow>
      (\<exists>w'. writerCount s' f = Some w' \<and> length (filter writeIntent hs') \<le> w' \<and> w' \<le> 1))"
proof (intro conjI impI)
  assume "getFile s f = Some fl \<and> f_parent fl = Some p \<and> getDir s p = Some pd \<and>
    0 < f_writers fl \<and> writeIntent flags"
  then show "Open c s f flags = (Inl EPERM, s)"
    by (simp add: Open_def)
next
  assume "writerCount s f = Some w \<and> length (filter writeIntent hs) \<le> w \<and> w \<le> 1 \<and>
    kernelRun c f (s, hs) xs = Some (s', hs')"
  then show "\<exists>w'. writerCount s' f = Some w' \<and> length (filter writeIntent hs') \<le> w' \<and> w' \<le> 1"
    using kernelRun_writers by blast
qed

text \<open>C2 on the file created in the root with \<open>O_WRONLY\<close>: a second writer is refused;
  after the writer's release a new writer is admitted.\<close>

theorem single_writer_witness:
  "writerCount stateCreated 1 = Some 1 \<and> writeIntent 1 \<and>
   Open okCfs stateCreated 1 1 = (Inl EPERM, stateCreated) \<and>
   writersAfter okCfs 1 stateCreated [1]
     [OpOpen 1 2, OpOpen 1 0, OpRelease 1 1, OpOpen 1 2, OpRelease 1 0] = Some (Some 1, [2])"
proof -
  have f: "getFile stateCreated 1 = Some \<lparr>f_inode = 7, f_parent = Some 0, f_name = ''a'',
             f_writers = 1, f_handles = 1, f_cfile = Some session0\<rparr>"
    by (simp add: ops_defs scen_defs)
  have d: "getDir stateCreated 0 = Some \<lparr>d_inode = 0, d_parent = None, d_name = [],
             d_active = [''a'' \<mapsto> \<lparr>node = 1, kernel = False, refs = 0\<rparr>]\<rparr>"
    by (simp add: ops_defs scen_defs)
  have wi: "writeIntent 1" "writeIntent 2" "\<not> writeIntent 0"
    by (simp_all add: writeIntent_def O_WRONLY_def O_RDWR_def)
  have w: "writerCount stateCreated 1 = Some 1"
    using f by (simp add: writerCount_def)
  have "\<exists>s'. kernelRun okCfs 1 (stateCreated, [1])
          [OpOpen 1 2, OpOpen 1 0, OpRelease 1 1, OpOpen 1 2, OpRelease 1 0] = Some (s', [2])"
    by (simp add: ops_defs scen_defs isOk_def writeIntent_def O_WRONLY_def O_RDWR_def O_TRUNC_def)
  then obtain s' where k: "kernelRun okCfs 1 (stateCreated, [1])
          [OpOpen 1 2, OpOpen 1 0, OpRelease 1 1, OpOpen 1 2, OpRelease 1 0] = Some (s', [2])"
    by blast
  note th = single_writer [where s = stateCreated and f = 1 and p = 0 and flags = 1 and c = okCfs
      and w = 1 and hs = "[1]" and s' = s' and hs' = "[2]"
      and xs = "[OpOpen 1 2, OpOpen 1 0, OpRelease 1 1, OpOpen 1 2, OpRelease 1 0]"
      and fl = "\<lparr>f_inode = 7, f_parent = Some 0, f_name = ''a'',
             f_writers = 1, f_handles = 1, f_cfile = Some session0\<rparr>"
      and pd = "\<lparr>d_inode = 0, d_parent = None, d_name = [],
             d_active = [''a'' \<mapsto> \<lparr>node = 1, kernel = False, refs = 0\<rparr>]\<rparr>"]
  have pre1: "getFile stateCreated 1 = Some \<lparr>f_inode = 7, f_parent = Some 0, f_name = ''a'',
             f_writers = 1, f_handles = 1, f_cfile = Some session0\<rparr> \<and>
      f_parent \<lparr>f_inode = 7, f_parent = Some 0, f_name = ''a'',
             f_writers = 1, f_handles = 1, f_cfile = Some session0\<rparr> = Some 0 \<and>
      getDir stateCreated 0 = Some \<lparr>d_inode = 0, d_parent = None, d_name = [],
             d_active = [''a'' \<mapsto> \<lparr>node = 1, kernel = False, refs = 0\<rparr>]\<rparr> \<and>
      0 < f_writers \<lparr>f_inode = 7, f_parent = Some 0, f_name = ''a'',
             f_writers = 1, f_handles = 1, f_cfile = Some session0\<rparr> \<and> writeIntent 1"
    using f d wi by simp
  from th [THEN conjunct1, THEN mp, OF pre1]
  have e: "Open okCfs stateCreated 1 1 = (Inl EPERM, stateCreated)" .
  have pre2: "writerCount stateCreated 1 = Some 1 \<and> length (filter writeIntent [1]) \<le> 1 \<and>
      (1::nat) \<le> 1 \<and>
      kernelRun okCfs 1 (stateCreated, [1])
          [OpOpen 1 2, OpOpen 1 0, OpRelease 1 1, OpOpen 1 2, OpRelease 1 0] = Some (s', [2])"
    using w wi k by simp
  from th [THEN conjunct2, THEN mp, OF pre2]
  obtain w' where "writerCount s' 1 = Some w'"
    "length (filter writeIntent [2]) \<le> w'" "w' \<le> 1"
    by blast
  with wi have "writerCount s' 1 = Some 1" by simp
  with k have "writersAfter okCfs 1 stateCreated [1]
     [OpOpen 1 2, OpOpen 1 0, OpRelease 1 1, OpOpen 1 2, OpRelease 1 0] = Some (Some 1, [2])"
    by (simp add: writersAfter_def)
  with w wi e show ?thesis by simp
qed

end
